theory Spec2Isabelle
  imports
    Complex_Main
    "HOL-Library.AList"
    "HOL-Library.Char_ord"
    "HOL-Library.Code_Target_Numeral"
    "HOL-Library.List_Lexorder"
    "HOL-Library.Multiset"
    "HOL-Library.Product_Lexorder"
begin

section \<open>Python values, exceptions and string primitives\<close>

text \<open>
  Python strings are modelled as \<^typ>\<open>string\<close>, one \<^typ>\<open>char\<close> per code point (the
  code points below 256); the string methods below are the ones the sources call, and the
  case mappings change the ASCII letters.
  An exception is a value of \<open>error\<close>, named after its Python class, and a function that
  may raise returns \<open>error + 'a\<close> with \<open>Inl\<close> for the raised exception.
\<close>

datatype error =
    ValueError
  | TypeError
  | AttributeError
  | OverflowError
  | OSError
  | IndexError
  | CsvError

abbreviation dquote :: char where "dquote \<equiv> CHR 0x22"
abbreviation backslash :: char where "backslash \<equiv> CHR 0x5C"
abbreviation newline :: char where "newline \<equiv> CHR 0x0A"
abbreviation carriage :: char where "carriage \<equiv> CHR 0x0D"

text \<open>\<open>s.replace(old, new)\<close> for a one-character \<open>old\<close>.\<close>

definition str_replace :: "char \<Rightarrow> string \<Rightarrow> string \<Rightarrow> string" where
  "str_replace old new s = concat (map (\<lambda>c. if c = old then new else [c]) s)"

text \<open>\<open>sep.join(parts)\<close>.\<close>

fun join :: "string \<Rightarrow> string list \<Rightarrow> string" where
  "join sep [] = []"
| "join sep [x] = x"
| "join sep (x # y # ys) = x @ sep @ join sep (y # ys)"

text \<open>\<open>s.startswith(p)\<close>.\<close>

definition startswith :: "string \<Rightarrow> string \<Rightarrow> bool" where
  "startswith s p = (take (length p) s = p)"

text \<open>\<open>str(n)\<close> for an integer: decimal digits, a minus sign when negative.\<close>

definition digit_char :: "nat \<Rightarrow> char" where
  "digit_char d = char_of (48 + d)"

fun str_nat :: "nat \<Rightarrow> string" where
  "str_nat n = (if n < 10 then [digit_char n] else str_nat (n div 10) @ [digit_char (n mod 10)])"

declare str_nat.simps [simp del]

definition str_int :: "int \<Rightarrow> string" where
  "str_int i = (if i < 0 then CHR ''-'' # str_nat (nat (- i)) else str_nat (nat i))"

definition is_digit :: "char \<Rightarrow> bool" where
  "is_digit c = (CHR ''0'' \<le> c \<and> c \<le> CHR ''9'')"

definition digit_val :: "char \<Rightarrow> nat" where
  "digit_val c = of_char c - 48"

text \<open>The number a string of decimal digits denotes (\<open>int(s)\<close> on such a string).\<close>

definition digits_val :: "string \<Rightarrow> nat" where
  "digits_val s = foldl (\<lambda>acc c. 10 * acc + digit_val c) 0 s"

text \<open>
  A record field, a JSON scalar: \<open>None\<close>, a \<open>bool\<close>, an \<open>int\<close>, a \<open>float\<close> or a \<open>str\<close>.
  The type \<open>'f\<close> stands for Python's \<open>float\<close>.
\<close>

datatype 'f pyval = PNone | PBool bool | PInt int | PFloat 'f | PStr string

text \<open>
  The standard-library calls of the sources whose results depend on the interpreter, the
  platform's time zone or binary floating point are taken as parameters:
  \<^item> \<open>fromisoformat_ms s\<close> is \<open>int(datetime.fromisoformat(s).timestamp() * 1000)\<close>;
  \<^item> \<open>to_float v\<close> is \<open>float(v)\<close>;
  \<^item> \<open>float_times x n\<close> is \<open>x * n\<close> for a float \<open>x\<close> and an int \<open>n\<close>;
  \<^item> \<open>float_to_int x\<close> is \<open>int(x)\<close> on a float;
  \<^item> \<open>float_str x\<close> is \<open>str(x)\<close> on a float;
  \<^item> \<open>float_value x\<close> is the rational number the float \<open>x\<close> stands for, \<open>None\<close> for
    an infinity or a NaN.
\<close>

record 'f pylib =
  fromisoformat_ms :: "string \<Rightarrow> error + int"
  to_float :: "'f pyval \<Rightarrow> error + 'f"
  float_times :: "'f \<Rightarrow> int \<Rightarrow> 'f"
  float_to_int :: "'f \<Rightarrow> error + int"
  float_str :: "'f \<Rightarrow> string"
  float_value :: "'f \<Rightarrow> rat option"

text \<open>
  What binary floating point with 53 bits of precision guarantees: \<open>float\<close> reads a
  decimal integer below \<open>2^53\<close> exactly; the product of a float and an int below
  \<open>2^53\<close> is exact when it is an integer below \<open>2^53\<close>; and \<open>int\<close> of a float that
  stands for an integer is that integer.
\<close>

definition exact_floats :: "'f pylib \<Rightarrow> bool" where
  "exact_floats L \<longleftrightarrow>
     (\<forall>s. s \<noteq> [] \<and> list_all is_digit s \<and> digits_val s < 2 ^ 53 \<longrightarrow>
        (\<exists>x. to_float L (PStr s) = Inr x \<and> float_value L x = Some (of_nat (digits_val s))))
     \<and> (\<forall>x q n. float_value L x = Some q \<and> q * of_int n \<in> \<int> \<and> \<bar>q * of_int n\<bar> < 2 ^ 53
            \<and> \<bar>n\<bar> < 2 ^ 53 \<longrightarrow> float_value L (float_times L x n) = Some (q * of_int n))
     \<and> (\<forall>x i. float_value L x = Some (of_int i) \<longrightarrow> float_to_int L x = Inr i)"

section \<open>Legacy path: \<open>main.py\<close>\<close>

subsection \<open>\<open>format_timestamp\<close>\<close>

text \<open>
  \<^verbatim>\<open>
  try:
      dt = datetime.datetime.fromisoformat(timestamp.replace('Z', '+00:00'))
      return str(int(dt.timestamp() * 1000))
  except ValueError:
      if len(timestamp) > 12:
          return timestamp
      else:
          return str(int(float(timestamp) * 1000))
  \<close>
  Only \<open>ValueError\<close> is caught; what the fallback raises propagates.
\<close>

definition format_timestamp :: "'f pylib \<Rightarrow> string \<Rightarrow> error + string" where
  "format_timestamp L timestamp =
     (case fromisoformat_ms L (str_replace CHR ''Z'' ''+00:00'' timestamp) of
        Inr ms \<Rightarrow> Inr (str_int ms)
      | Inl e \<Rightarrow>
          if e = ValueError then
            if length timestamp > 12 then Inr timestamp
            else (case to_float L (PStr timestamp) of
                    Inl e' \<Rightarrow> Inl e'
                  | Inr x \<Rightarrow>
                      (case float_to_int L (float_times L x 1000) of
                         Inl e' \<Rightarrow> Inl e'
                       | Inr n \<Rightarrow> Inr (str_int n)))
          else Inl e)"

subsection \<open>The rows \<open>csv.reader(io.StringIO(csv_data))\<close> yields\<close>

text \<open>
  Iterating \<open>io.StringIO(csv_data)\<close> yields the lines of the text, each with its
  terminating newline (the last line may have none).
\<close>

fun stringio_lines_from :: "string \<Rightarrow> string \<Rightarrow> string list" where
  "stringio_lines_from cur [] = (if cur = [] then [] else [cur])"
| "stringio_lines_from cur (c # cs) =
     (if c = newline then (cur @ [c]) # stringio_lines_from [] cs
      else stringio_lines_from (cur @ [c]) cs)"

definition stringio_lines :: "string \<Rightarrow> string list" where
  "stringio_lines s = stringio_lines_from [] s"

text \<open>
  The reader of the \<open>csv\<close> module with its default dialect (delimiter \<open>,\<close>, quote
  character \<open>"\<close>, doubled quotes, no escape character, not strict): the character
  automaton of \<open>parse_process_char\<close>, where \<open>None\<close> is the end-of-line signal sent
  after each line. The states that only an escape character reaches are left out. A field
  longer than the field size limit and a character after an unquoted line break raise
  \<open>csv.Error\<close>.
\<close>

datatype csv_state =
  START_RECORD | START_FIELD | IN_FIELD | IN_QUOTED_FIELD | QUOTE_IN_QUOTED_FIELD | EAT_CRNL

record reader =
  rstate :: csv_state
  rfields :: "string list"
  rfield :: string

definition field_limit :: nat where
  "field_limit = 131072"

definition parse_reset :: reader where
  "parse_reset = \<lparr>rstate = START_RECORD, rfields = [], rfield = []\<rparr>"

definition parse_save_field :: "reader \<Rightarrow> csv_state \<Rightarrow> error + reader" where
  "parse_save_field r st = Inr \<lparr>rstate = st, rfields = rfields r @ [rfield r], rfield = []\<rparr>"

definition parse_add_char :: "reader \<Rightarrow> char \<Rightarrow> csv_state \<Rightarrow> error + reader" where
  "parse_add_char r c st =
     (if length (rfield r) \<ge> field_limit then Inl CsvError
      else Inr \<lparr>rstate = st, rfields = rfields r, rfield = rfield r @ [c]\<rparr>)"

definition is_crnl :: "char \<Rightarrow> bool" where
  "is_crnl c = (c = newline \<or> c = carriage)"

definition start_field :: "reader \<Rightarrow> char option \<Rightarrow> error + reader" where
  "start_field r c =
     (case c of
        None \<Rightarrow> parse_save_field r START_RECORD
      | Some ch \<Rightarrow>
          if is_crnl ch then parse_save_field r EAT_CRNL
          else if ch = dquote then Inr (r\<lparr>rstate := IN_QUOTED_FIELD\<rparr>)
          else if ch = CHR '','' then parse_save_field r START_FIELD
          else parse_add_char r ch IN_FIELD)"

definition parse_process_char :: "reader \<Rightarrow> char option \<Rightarrow> error + reader" where
  "parse_process_char r c =
     (case rstate r of
        START_RECORD \<Rightarrow>
          (case c of
             None \<Rightarrow> Inr r
           | Some ch \<Rightarrow> if is_crnl ch then Inr (r\<lparr>rstate := EAT_CRNL\<rparr>) else start_field r c)
      | START_FIELD \<Rightarrow> start_field r c
      | IN_FIELD \<Rightarrow>
          (case c of
             None \<Rightarrow> parse_save_field r START_RECORD
           | Some ch \<Rightarrow>
               if is_crnl ch then parse_save_field r EAT_CRNL
               else if ch = CHR '','' then parse_save_field r START_FIELD
               else parse_add_char r ch IN_FIELD)
      | IN_QUOTED_FIELD \<Rightarrow>
          (case c of
             None \<Rightarrow> Inr r
           | Some ch \<Rightarrow>
               if ch = dquote then Inr (r\<lparr>rstate := QUOTE_IN_QUOTED_FIELD\<rparr>)
               else parse_add_char r ch IN_QUOTED_FIELD)
      | QUOTE_IN_QUOTED_FIELD \<Rightarrow>
          (case c of
             None \<Rightarrow> parse_save_field r START_RECORD
           | Some ch \<Rightarrow>
               if ch = dquote then parse_add_char r ch IN_QUOTED_FIELD
               else if ch = CHR '','' then parse_save_field r START_FIELD
               else if is_crnl ch then parse_save_field r EAT_CRNL
               else parse_add_char r ch IN_FIELD)
      | EAT_CRNL \<Rightarrow>
          (case c of
             None \<Rightarrow> Inr (r\<lparr>rstate := START_RECORD\<rparr>)
           | Some ch \<Rightarrow> if is_crnl ch then Inr r else Inl CsvError))"

fun process_line :: "reader \<Rightarrow> string \<Rightarrow> error + reader" where
  "process_line r [] = parse_process_char r None"
| "process_line r (c # cs) =
     (case parse_process_char r (Some c) of
        Inl e \<Rightarrow> Inl e
      | Inr r' \<Rightarrow> process_line r' cs)"

text \<open>
  \<open>Reader_iternext\<close>, unfolded into the sequence of results the iterator gives: a row
  (\<open>Inr\<close>) each time the automaton is back in \<open>START_RECORD\<close> after a line, an
  exception (\<open>Inl\<close>) that ends the iteration, and at the end of the input the row in
  progress when a field or an open quoted field is pending.
\<close>

fun reader_rows :: "reader \<Rightarrow> string list \<Rightarrow> (error + string list) list" where
  "reader_rows r [] =
     (if rfield r \<noteq> [] \<or> rstate r = IN_QUOTED_FIELD then [Inr (rfields r @ [rfield r])] else [])"
| "reader_rows r (l # ls) =
     (case process_line r l of
        Inl e \<Rightarrow> [Inl e]
      | Inr r' \<Rightarrow>
          if rstate r' = START_RECORD then Inr (rfields r') # reader_rows parse_reset ls
          else reader_rows r' ls)"

definition csv_reader :: "string \<Rightarrow> (error + string list) list" where
  "csv_reader csv_data = reader_rows parse_reset (stringio_lines csv_data)"

subsection \<open>\<open>parse_influxdb_csv\<close>\<close>

record item =
  item_timestamp :: string
  item_measurement :: string
  item_field :: string
  item_value :: string
  item_tags :: "(string \<times> string) list"

text \<open>
  The first loop: skip empty rows and rows whose first cell starts with \<open>#\<close>, take the
  next row as the headers and leave the rest of the iterator for the second loop.
\<close>

fun find_headers ::
  "(error + string list) list \<Rightarrow> error + (string list option \<times> (error + string list) list)" where
  "find_headers [] = Inr (None, [])"
| "find_headers (Inl e # rest) = Inl e"
| "find_headers (Inr row # rest) =
     (if row = [] then find_headers rest
      else if startswith (hd row) ''#'' then find_headers rest
      else Inr (Some row, rest))"

text \<open>\<open>headers.index(x) if x in headers else None\<close>.\<close>

fun index_of :: "'a \<Rightarrow> 'a list \<Rightarrow> nat option" where
  "index_of x [] = None"
| "index_of x (y # ys) = (if x = y then Some 0 else map_option Suc (index_of x ys))"

text \<open>
  The tag loop \<open>for i, header in enumerate(headers)\<close>; \<open>tags\<close> is a dictionary in
  insertion order, and assigning to a key it already holds keeps the key's place.
\<close>

fun extract_tags ::
  "nat \<Rightarrow> string list \<Rightarrow> string list \<Rightarrow> (string \<times> string) list \<Rightarrow> (string \<times> string) list" where
  "extract_tags i [] row tags = tags"
| "extract_tags i (header # hs) row tags =
     extract_tags (Suc i) hs row
       (if \<not> startswith header ''_'' \<and> i < length row \<and> row ! i \<noteq> []
        then AList.update header (row ! i) tags else tags)"

definition parse_row :: "nat \<Rightarrow> nat \<Rightarrow> nat \<Rightarrow> nat \<Rightarrow> string list \<Rightarrow> string list \<Rightarrow> item" where
  "parse_row time_idx measurement_idx field_idx value_idx headers row =
     \<lparr>item_timestamp = row ! time_idx,
      item_measurement = row ! measurement_idx,
      item_field = row ! field_idx,
      item_value = row ! value_idx,
      item_tags = extract_tags 0 headers row []\<rparr>"

text \<open>
  The second loop. A row that is empty or too short for the four indices is skipped, so
  every \<open>row ! idx\<close> of \<open>parse_row\<close> is in range.
\<close>

fun data_rows ::
  "nat \<Rightarrow> nat \<Rightarrow> nat \<Rightarrow> nat \<Rightarrow> string list \<Rightarrow> (error + string list) list \<Rightarrow> error + item list" where
  "data_rows ti mi fi vi headers [] = Inr []"
| "data_rows ti mi fi vi headers (Inl e # rest) = Inl e"
| "data_rows ti mi fi vi headers (Inr row # rest) =
     (if row = [] \<or> length row < max (max ti mi) (max fi vi) + 1
      then data_rows ti mi fi vi headers rest
      else (case data_rows ti mi fi vi headers rest of
              Inl e \<Rightarrow> Inl e
            | Inr items \<Rightarrow> Inr (parse_row ti mi fi vi headers row # items)))"

text \<open>The data rows the second loop does not skip; the number of cells alone decides.\<close>

definition kept_rows :: "nat \<Rightarrow> nat \<Rightarrow> nat \<Rightarrow> nat \<Rightarrow> string list list \<Rightarrow> string list list" where
  "kept_rows ti mi fi vi data =
     filter (\<lambda>row. \<not> (row = [] \<or> length row < max (max ti mi) (max fi vi) + 1)) data"

definition parse_rows :: "(error + string list) list \<Rightarrow> error + item list" where
  "parse_rows rows =
     (case find_headers rows of
        Inl e \<Rightarrow> Inl e
      | Inr (None, rest) \<Rightarrow> Inl ValueError
      | Inr (Some headers, rest) \<Rightarrow>
          (case (index_of ''_time'' headers, index_of ''_measurement'' headers,
                 index_of ''_field'' headers, index_of ''_value'' headers) of
             (Some ti, Some mi, Some fi, Some vi) \<Rightarrow> data_rows ti mi fi vi headers rest
           | _ \<Rightarrow> Inl ValueError))"

definition parse_influxdb_csv :: "string \<Rightarrow> error + item list" where
  "parse_influxdb_csv csv_data = parse_rows (csv_reader csv_data)"

subsection \<open>\<open>influx_to_prometheus\<close>\<close>

definition labels_str :: "(string \<times> string) list \<Rightarrow> string" where
  "labels_str tags =
     (let labels = map (\<lambda>(k, v). k @ ''='' @ [dquote] @ v @ [dquote]) tags
      in if labels \<noteq> [] then ''{'' @ join '','' labels @ ''}'' else [])"

definition prom_line :: "item \<Rightarrow> string \<Rightarrow> string" where
  "prom_line it ts =
     (item_measurement it @ ''_'' @ item_field it) @ labels_str (item_tags it)
       @ '' '' @ item_value it @ '' '' @ ts"

fun prometheus_lines :: "'f pylib \<Rightarrow> item list \<Rightarrow> error + string list" where
  "prometheus_lines L [] = Inr []"
| "prometheus_lines L (it # its) =
     (case format_timestamp L (item_timestamp it) of
        Inl e \<Rightarrow> Inl e
      | Inr ts \<Rightarrow>
          (case prometheus_lines L its of
             Inl e \<Rightarrow> Inl e
           | Inr ls \<Rightarrow> Inr (prom_line it ts # ls)))"

definition influx_to_prometheus :: "'f pylib \<Rightarrow> string \<Rightarrow> error + string" where
  "influx_to_prometheus L csv_data =
     (case parse_influxdb_csv csv_data of
        Inl e \<Rightarrow> Inl e
      | Inr parsed_data \<Rightarrow>
          (case prometheus_lines L parsed_data of
             Inl e \<Rightarrow> Inl e
           | Inr ls \<Rightarrow> Inr (join [newline] ls)))"

section \<open>Grouped path: \<open>converter.py\<close>\<close>

subsection \<open>\<open>PrometheusMetric\<close> and \<open>convert_data\<close>\<close>

text \<open>
  The fields of \<open>PrometheusMetric\<close>. \<open>labels\<close> is a dictionary, kept in insertion
  order; \<open>help\<close> and \<open>timestamp\<close> may be \<open>None\<close>.
\<close>

record 'f metric =
  m_name :: string
  m_value :: 'f
  m_type :: string
  m_labels :: "(string \<times> string) list"
  m_help :: "string option"
  m_timestamp :: "int option"

definition VALID_TYPES :: "string list" where
  "VALID_TYPES = [''counter'', ''gauge'', ''histogram'', ''summary'']"








subsection \<open>\<open>format_metrics\<close>\<close>

text \<open>
  The dictionary \<open>metric_groups\<close>, in insertion order: the key is the text
  \<open>name:type\<close>, and a metric is appended to the group of its key.
\<close>

definition group_key :: "'f metric \<Rightarrow> string" where
  "group_key m = m_name m @ '':'' @ m_type m"

definition add_to_group ::
  "(string \<times> 'f metric list) list \<Rightarrow> 'f metric \<Rightarrow> (string \<times> 'f metric list) list" where
  "add_to_group groups m =
     (case map_of groups (group_key m) of
        None \<Rightarrow> groups @ [(group_key m, [m])]
      | Some g \<Rightarrow> AList.update (group_key m) (g @ [m]) groups)"

definition metric_groups :: "'f metric list \<Rightarrow> (string \<times> 'f metric list) list" where
  "metric_groups metrics = foldl add_to_group [] metrics"

text \<open>
  The three \<open>replace\<close> calls on a label value, in the order of the source: backslash,
  double quote, newline.
\<close>

definition escape_value :: "string \<Rightarrow> string" where
  "escape_value v =
     str_replace newline [backslash, CHR ''n'']
       (str_replace dquote [backslash, dquote]
          (str_replace backslash [backslash, backslash] v))"

text \<open>\<open>sorted(metric.labels.items())\<close> orders the pairs, so the keys ascend.\<close>

definition format_labels :: "(string \<times> string) list \<Rightarrow> string" where
  "format_labels labels =
     (if labels \<noteq> [] then
        ''{'' @ join '','' (map (\<lambda>(k, v). k @ ''='' @ [dquote] @ escape_value v @ [dquote]) (sort labels))
          @ ''}''
      else [])"

definition sample_line :: "'f pylib \<Rightarrow> 'f metric \<Rightarrow> string" where
  "sample_line L m =
     (case m_timestamp m of
        Some ts \<Rightarrow> m_name m @ format_labels (m_labels m) @ '' '' @ float_str L (m_value m)
                    @ '' '' @ str_int ts
      | None \<Rightarrow> m_name m @ format_labels (m_labels m) @ '' '' @ float_str L (m_value m))"

text \<open>\<open>if first_metric.help\<close>: the help text is there and not empty.\<close>

definition help_lines :: "'f metric \<Rightarrow> string list" where
  "help_lines first_metric =
     (case m_help first_metric of
        None \<Rightarrow> []
      | Some h \<Rightarrow> if h \<noteq> [] then [''# HELP '' @ m_name first_metric @ '' '' @ h] else [])"

definition type_line :: "'f metric \<Rightarrow> string" where
  "type_line first_metric = ''# TYPE '' @ m_name first_metric @ '' '' @ m_type first_metric"

text \<open>The lines of one group; \<open>group[0]\<close> raises \<open>IndexError\<close> on an empty group.\<close>

definition group_lines :: "'f pylib \<Rightarrow> 'f metric list \<Rightarrow> error + string list" where
  "group_lines L g =
     (case g of
        [] \<Rightarrow> Inl IndexError
      | first_metric # _ \<Rightarrow>
          Inr (help_lines first_metric @ [type_line first_metric] @ map (sample_line L) g @ [[]]))"

fun groups_lines ::
  "'f pylib \<Rightarrow> (string \<times> 'f metric list) list \<Rightarrow> error + string list" where
  "groups_lines L [] = Inr []"
| "groups_lines L ((key, g) # rest) =
     (case group_lines L g of
        Inl e \<Rightarrow> Inl e
      | Inr ls \<Rightarrow>
          (case groups_lines L rest of
             Inl e \<Rightarrow> Inl e
           | Inr ls' \<Rightarrow> Inr (ls @ ls')))"

definition format_metrics_lines :: "'f pylib \<Rightarrow> 'f metric list \<Rightarrow> error + string list" where
  "format_metrics_lines L metrics = groups_lines L (metric_groups metrics)"

definition format_metrics :: "'f pylib \<Rightarrow> 'f metric list \<Rightarrow> error + string" where
  "format_metrics L metrics =
     (if metrics = [] then Inr []
      else (case format_metrics_lines L metrics of
              Inl e \<Rightarrow> Inl e
            | Inr ls \<Rightarrow> Inr (join [newline] ls)))"

text \<open>
  The grouping in the words of the specification: the pairs \<open>(name, type)\<close> in the
  order of their first occurrence, each with all the samples that carry it.
\<close>

fun first_seen :: "'a list \<Rightarrow> 'a list" where
  "first_seen [] = []"
| "first_seen (x # xs) = x # first_seen (filter (\<lambda>y. y \<noteq> x) xs)"

definition name_type :: "'f metric \<Rightarrow> string \<times> string" where
  "name_type m = (m_name m, m_type m)"

definition pair_key :: "string \<times> string \<Rightarrow> string" where
  "pair_key nt = fst nt @ '':'' @ snd nt"

definition spec_group_lines :: "'f pylib \<Rightarrow> 'f metric list \<Rightarrow> string list" where
  "spec_group_lines L g = help_lines (hd g) @ [type_line (hd g)] @ map (sample_line L) g @ [[]]"

definition spec_lines :: "'f pylib \<Rightarrow> 'f metric list \<Rightarrow> string list" where
  "spec_lines L metrics =
     concat (map (\<lambda>nt. spec_group_lines L (filter (\<lambda>m. name_type m = nt) metrics))
               (first_seen (map name_type metrics)))"

text \<open>The escaping of a label value as one pass over its characters.\<close>

definition escape_char :: "char \<Rightarrow> string" where
  "escape_char c =
     (if c = backslash then [backslash, backslash]
      else if c = dquote then [backslash, dquote]
      else if c = newline then [backslash, CHR ''n'']
      else [c])"

section \<open>Query translator: \<open>influx2promql.py\<close>\<close>

subsection \<open>\<open>detect_query_type\<close>\<close>

text \<open>A whitespace character, as \<open>str.isspace\<close> and \<open>\s\<close> take it below code point 256.\<close>

definition is_space :: "char \<Rightarrow> bool" where
  "is_space c =
     (let n = (of_char c :: nat)
      in (9 \<le> n \<and> n \<le> 13) \<or> (28 \<le> n \<and> n \<le> 32) \<or> n = 133 \<or> n = 160)"

text \<open>\<open>s.strip()\<close>, \<open>s.lower()\<close>, \<open>s.upper()\<close> and \<open>sub in s\<close>.\<close>

definition strip :: "string \<Rightarrow> string" where
  "strip s = rev (dropWhile is_space (rev (dropWhile is_space s)))"

definition lower_char :: "char \<Rightarrow> char" where
  "lower_char c = (if CHR ''A'' \<le> c \<and> c \<le> CHR ''Z'' then char_of (of_char c + (32 :: nat)) else c)"

definition upper_char :: "char \<Rightarrow> char" where
  "upper_char c = (if CHR ''a'' \<le> c \<and> c \<le> CHR ''z'' then char_of (of_char c - (32 :: nat)) else c)"

definition lower :: "string \<Rightarrow> string" where
  "lower s = map lower_char s"

definition upper :: "string \<Rightarrow> string" where
  "upper s = map upper_char s"

fun contains :: "string \<Rightarrow> string \<Rightarrow> bool" where
  "contains sub [] = (sub = [])"
| "contains sub (c # cs) = (startswith (c # cs) sub \<or> contains sub cs)"

definition detect_query_type :: "string \<Rightarrow> string" where
  "detect_query_type query =
     (if startswith (lower (strip query)) ''from'' \<or> contains ''|>'' query then ''flux''
      else if startswith (upper (strip query)) ''SELECT'' then ''influxql''
      else ''unknown'')"

subsection \<open>The regular expressions of the \<open>re\<close> module\<close>

text \<open>
  The patterns of the translator use literals, character classes, \<open>*\<close>, \<open>+\<close> and
  \<open>+?\<close> on a character class, \<open>?\<close> on a group, alternation, groups and \<open>$\<close>. A
  pattern is a term of \<open>re\<close>: \<open>Chr P\<close> is one character of the class \<open>P\<close>,
  \<open>Rep greedy n P\<close> is at least \<open>n\<close> characters of the class \<open>P\<close>, as many as
  possible first when \<open>greedy\<close> and as few as possible first otherwise, \<open>Grp g r\<close> is the
  capturing group number \<open>g\<close>, and \<open>Eos\<close> is \<open>$\<close>, which holds at the end of the text
  and before a newline that ends the text.
\<close>

datatype re =
    Eps
  | Chr "char \<Rightarrow> bool"
  | Seq re re
  | Alt re re
  | Opt re
  | Rep bool nat "char \<Rightarrow> bool"
  | Grp nat re
  | Eos

text \<open>
  The backtracking matcher works on the list of what is still to be matched; \<open>Close g st\<close>
  ends group \<open>g\<close>, which began when the text left was \<open>st\<close>. The captured groups are a
  dictionary from group number to text, and a group that took no part in the match has no
  entry. The result is the captures and the text left after the match.
\<close>

datatype frame = R re | Close nat string

type_synonym caps = "(nat \<times> string) list"

fun re_size :: "re \<Rightarrow> nat" where
  "re_size (Seq a b) = re_size a + re_size b + 2"
| "re_size (Alt a b) = re_size a + re_size b + 1"
| "re_size (Opt a) = re_size a + 1"
| "re_size (Grp g a) = re_size a + 2"
| "re_size r = 1"

fun frame_size :: "frame \<Rightarrow> nat" where
  "frame_size (R r) = re_size r + 1"
| "frame_size (Close g st) = 1"

function (sequential) match :: "frame list \<Rightarrow> string \<Rightarrow> caps \<Rightarrow> (caps \<times> string) option" where
  "match [] s c = Some (c, s)"
| "match (Close g st # k) s c = match k s (AList.update g (take (length st - length s) st) c)"
| "match (R Eps # k) s c = match k s c"
| "match (R (Chr P) # k) [] c = None"
| "match (R (Chr P) # k) (x # xs) c = (if P x then match k xs c else None)"
| "match (R (Seq a b) # k) s c = match (R a # R b # k) s c"
| "match (R (Alt a b) # k) s c =
     (case match (R a # k) s c of Some r \<Rightarrow> Some r | None \<Rightarrow> match (R b # k) s c)"
| "match (R (Opt a) # k) s c =
     (case match (R a # k) s c of Some r \<Rightarrow> Some r | None \<Rightarrow> match k s c)"
| "match (R (Grp g a) # k) s c = match (R a # Close g s # k) s c"
| "match (R Eos # k) s c = (if s = [] \<or> s = [newline] then match k s c else None)"
| "match (R (Rep greedy (Suc n) P) # k) [] c = None"
| "match (R (Rep greedy (Suc n) P) # k) (x # xs) c =
     (if P x then match (R (Rep greedy n P) # k) xs c else None)"
| "match (R (Rep greedy 0 P) # k) [] c = match k [] c"
| "match (R (Rep greedy 0 P) # k) (x # xs) c =
     (if greedy then
        (if P x then
           (case match (R (Rep greedy 0 P) # k) xs c of
              Some r \<Rightarrow> Some r
            | None \<Rightarrow> match k (x # xs) c)
         else match k (x # xs) c)
      else
        (case match k (x # xs) c of
           Some r \<Rightarrow> Some r
         | None \<Rightarrow> if P x then match (R (Rep greedy 0 P) # k) xs c else None))"
  by pat_completeness auto
termination
  by (relation "measures [\<lambda>(k, s, c). sum_list (map frame_size k), \<lambda>(k, s, c). length s]") auto

text \<open>\<open>re.search\<close>: the match at the leftmost position that has one.\<close>

fun search :: "re \<Rightarrow> string \<Rightarrow> (caps \<times> string) option" where
  "search r [] = match [R r] [] []"
| "search r (x # xs) =
     (case match [R r] (x # xs) [] of Some res \<Rightarrow> Some res | None \<Rightarrow> search r xs)"

text \<open>
  \<open>re.finditer\<close>: the successive matches, each search starting where the last match
  ended. The patterns it is used with match no empty text, so each match shortens the
  text left.
\<close>

function finditer :: "re \<Rightarrow> string \<Rightarrow> caps list" where
  "finditer r s =
     (case search r s of
        None \<Rightarrow> []
      | Some (c, rest) \<Rightarrow> if length rest < length s then c # finditer r rest else [c])"
  by pat_completeness auto
termination
  by (relation "measure (\<lambda>(r, s). length s)") auto

text \<open>
  The groups that take part in every match of a pattern: those that lie under no \<open>?\<close>
  and in every branch of an alternation.
\<close>

fun must :: "re \<Rightarrow> nat set" where
  "must (Grp g a) = insert g (must a)"
| "must (Seq a b) = must a \<union> must b"
| "must (Alt a b) = must a \<inter> must b"
| "must r = {}"

fun frame_must :: "frame \<Rightarrow> nat set" where
  "frame_must (R r) = must r"
| "frame_must (Close g st) = {g}"

text \<open>\<open>match.group(g)\<close>: the text of the group, \<open>None\<close> when it took no part.\<close>

definition group :: "caps \<Rightarrow> nat \<Rightarrow> string option" where
  "group c g = map_of c g"

text \<open>A method call on a group's text raises \<open>AttributeError\<close> on \<open>None\<close>.\<close>

definition attr :: "string option \<Rightarrow> error + string" where
  "attr v = (case v of None \<Rightarrow> Inl AttributeError | Some s \<Rightarrow> Inr s)"

text \<open>A group's text inside an f-string; \<open>None\<close> is printed as \<open>None\<close>.\<close>

definition py_format :: "string option \<Rightarrow> string" where
  "py_format v = (case v of None \<Rightarrow> ''None'' | Some s \<Rightarrow> s)"

definition lit :: "string \<Rightarrow> re" where
  "lit s = foldr (\<lambda>c r. Seq (Chr (\<lambda>x. x = c)) r) s Eps"

text \<open>A literal under \<open>re.IGNORECASE\<close>.\<close>

definition lit_i :: "string \<Rightarrow> re" where
  "lit_i s = foldr (\<lambda>c r. Seq (Chr (\<lambda>x. lower_char x = lower_char c)) r) s Eps"

definition seqs :: "re list \<Rightarrow> re" where
  "seqs rs = foldr Seq rs Eps"

fun alts :: "re list \<Rightarrow> re" where
  "alts [] = Eps"
| "alts [r] = r"
| "alts (r # rs) = Alt r (alts rs)"

text \<open>\<open>\s*\<close>, \<open>\s+\<close>, \<open>[a-zA-Z0-9_]\<close> and a negated class \<open>[^...]\<close>.\<close>

definition ws :: re where
  "ws = Rep True 0 is_space"

definition ws1 :: re where
  "ws1 = Rep True 1 is_space"

definition is_word :: "char \<Rightarrow> bool" where
  "is_word c =
     ((CHR ''a'' \<le> c \<and> c \<le> CHR ''z'') \<or> (CHR ''A'' \<le> c \<and> c \<le> CHR ''Z'') \<or> is_digit c
      \<or> c = CHR ''_'')"

definition none_of :: "string \<Rightarrow> char \<Rightarrow> bool" where
  "none_of cs c = (c \<notin> set cs)"

subsection \<open>\<open>convert_flux_to_promql\<close>\<close>

text \<open>\<^verbatim>\<open>range\(start:\s*([^,\)]+)(?:,\s*stop:\s*([^,\)]+))?\)\<close>\<close>

definition range_pattern :: re where
  "range_pattern =
     seqs [lit ''range(start:'', ws, Grp 1 (Rep True 1 (none_of '',)'')),
           Opt (seqs [lit '','', ws, lit ''stop:'', ws, Grp 2 (Rep True 1 (none_of '',)''))]),
           lit '')'']"

text \<open>\<^verbatim>\<open>filter\(fn:\s*\(r\)\s*=>\s*r\.([^\s]+)\s*==\s*"([^"]+)"\)\<close>\<close>

definition filter_pattern :: re where
  "filter_pattern =
     seqs [lit ''filter(fn:'', ws, lit ''(r)'', ws, lit ''=>'', ws, lit ''r.'',
           Grp 1 (Rep True 1 (\<lambda>c. \<not> is_space c)), ws, lit ''=='', ws, lit [dquote],
           Grp 2 (Rep True 1 (none_of [dquote])), lit [dquote], lit '')'']"

text \<open>\<^verbatim>\<open>_field\s*==\s*"([^"]+)"\<close> and \<^verbatim>\<open>_measurement\s*==\s*"([^"]+)"\<close>\<close>

definition field_pattern :: re where
  "field_pattern =
     seqs [lit ''_field'', ws, lit ''=='', ws, lit [dquote],
           Grp 1 (Rep True 1 (none_of [dquote])), lit [dquote]]"

definition measurement_pattern :: re where
  "measurement_pattern =
     seqs [lit ''_measurement'', ws, lit ''=='', ws, lit [dquote],
           Grp 1 (Rep True 1 (none_of [dquote])), lit [dquote]]"

text \<open>\<^verbatim>\<open>(mean|sum|count|min|max|stddev)\(\)\<close>\<close>

definition aggregate_pattern :: re where
  "aggregate_pattern =
     seqs [Grp 1 (alts [lit ''mean'', lit ''sum'', lit ''count'', lit ''min'', lit ''max'',
                        lit ''stddev'']),
           lit ''()'']"

definition flux_agg_map :: "(string \<times> string) list" where
  "flux_agg_map =
     [(''mean'', ''avg''), (''sum'', ''sum''), (''count'', ''count''), (''min'', ''min''),
      (''max'', ''max''), (''stddev'', ''stddev'')]"

text \<open>
  The end of both translators: the metric name, the filters between braces, the time
  range, and the aggregation around them.
\<close>

definition compose_promql :: "string \<Rightarrow> string list \<Rightarrow> string \<Rightarrow> string \<Rightarrow> string" where
  "compose_promql metric_name filters time_range aggregation =
     (let p1 = metric_name @ (if filters \<noteq> [] then ''{'' @ join '', '' filters @ ''}'' else []);
          p2 = p1 @ time_range
      in if aggregation \<noteq> [] then aggregation @ ''('' @ p2 @ '')'' else p2)"

text \<open>
  The time range: \<open>start_time.startswith('-')\<close> is a method call on group 1 of the
  range match. The four \<open>replace\<close> calls put each unit letter in its own place.
\<close>

definition flux_time_range :: "string \<Rightarrow> error + string" where
  "flux_time_range flux_query =
     (case search range_pattern flux_query of
        None \<Rightarrow> Inr []
      | Some (m, rest) \<Rightarrow>
          (case attr (group m 1) of
             Inl e \<Rightarrow> Inl e
           | Inr start_time \<Rightarrow>
               if startswith start_time ''-'' then
                 Inr (''['' @ str_replace CHR ''s'' ''s'' (str_replace CHR ''m'' ''m''
                        (str_replace CHR ''d'' ''d'' (str_replace CHR ''h'' ''h'' start_time)))
                      @ '']'')
               else Inr []))"

definition flux_metric_name :: "string \<Rightarrow> string" where
  "flux_metric_name flux_query =
     (case (search measurement_pattern flux_query, search field_pattern flux_query) of
        (Some (mm, r1), Some (fm, r2)) \<Rightarrow> py_format (group mm 1) @ ''_'' @ py_format (group fm 1)
      | _ \<Rightarrow> [])"

definition flux_filters :: "string \<Rightarrow> string list" where
  "flux_filters flux_query =
     map (\<lambda>m. py_format (group m 1) @ ''='' @ [dquote] @ py_format (group m 2) @ [dquote])
       (filter (\<lambda>m. group m 1 \<notin> {Some ''_measurement'', Some ''_field''})
          (finditer filter_pattern flux_query))"

definition flux_aggregation :: "string \<Rightarrow> string" where
  "flux_aggregation flux_query =
     (case search aggregate_pattern flux_query of
        None \<Rightarrow> []
      | Some (m, rest) \<Rightarrow>
          (case group m 1 of
             None \<Rightarrow> []
           | Some agg_func \<Rightarrow> (case map_of flux_agg_map agg_func of None \<Rightarrow> [] | Some a \<Rightarrow> a)))"

text \<open>The bucket is searched for and not used.\<close>

definition convert_flux_to_promql :: "string \<Rightarrow> error + string" where
  "convert_flux_to_promql flux_query =
     (case flux_time_range flux_query of
        Inl e \<Rightarrow> Inl e
      | Inr time_range \<Rightarrow>
          Inr (compose_promql (flux_metric_name flux_query) (flux_filters flux_query) time_range
                 (flux_aggregation flux_query)))"

subsection \<open>\<open>convert_influxql_to_promql\<close>\<close>

text \<open>
  \<^verbatim>\<open>SELECT\s+([^FROM]+)FROM\s+([^\s;]+)\<close> under \<open>re.IGNORECASE\<close>: the class excludes
  the four letters in both cases.
\<close>

definition select_pattern :: re where
  "select_pattern =
     seqs [lit_i ''SELECT'', ws1, Grp 1 (Rep True 1 (\<lambda>c. lower_char c \<notin> set ''from'')),
           lit_i ''FROM'', ws1, Grp 2 (Rep True 1 (\<lambda>c. \<not> is_space c \<and> c \<noteq> CHR '';''))]"

text \<open>\<^verbatim>\<open>WHERE\s+(.+?)(?:GROUP BY|ORDER BY|LIMIT|$)\<close> under \<open>re.IGNORECASE\<close>\<close>

definition where_pattern :: re where
  "where_pattern =
     seqs [lit_i ''WHERE'', ws1, Grp 1 (Rep False 1 (\<lambda>c. c \<noteq> newline)),
           alts [lit_i ''GROUP BY'', lit_i ''ORDER BY'', lit_i ''LIMIT'', Eos]]"

text \<open>\<^verbatim>\<open>time\s*(>=|>|<=|<)\s*([^\s)]+)\<close> under \<open>re.IGNORECASE\<close>\<close>

definition time_pattern :: re where
  "time_pattern =
     seqs [lit_i ''time'', ws, Grp 1 (alts [lit ''>='', lit ''>'', lit ''<='', lit ''<'']), ws,
           Grp 2 (Rep True 1 (\<lambda>c. \<not> is_space c \<and> c \<noteq> CHR '')''))]"

text \<open>\<^verbatim>\<open>([a-zA-Z0-9_]+)\s*=\s*\'([^\']+)\'\<close>\<close>

definition tag_pattern :: re where
  "tag_pattern =
     seqs [Grp 1 (Rep True 1 is_word), ws, lit ''='', ws, lit [CHR 0x27],
           Grp 2 (Rep True 1 (none_of [CHR 0x27])), lit [CHR 0x27]]"

text \<open>\<^verbatim>\<open>([a-zA-Z0-9_]+)\(([^)]*)\)\<close>\<close>

definition function_pattern :: re where
  "function_pattern =
     seqs [Grp 1 (Rep True 1 is_word), lit ''('', Grp 2 (Rep True 0 (none_of '')'')), lit '')'']"

text \<open>\<^verbatim>\<open>now\(\)\s*-\s*(\d+)([hmd])\<close>\<close>

definition duration_pattern :: re where
  "duration_pattern =
     seqs [lit ''now()'', ws, lit ''-'', ws, Grp 1 (Rep True 1 is_digit),
           Grp 2 (Chr (\<lambda>c. c \<in> set ''hmd''))]"

definition influxql_func_map :: "(string \<times> string) list" where
  "influxql_func_map =
     [(''mean'', ''avg''), (''sum'', ''sum''), (''count'', ''count''), (''min'', ''min''),
      (''max'', ''max'')]"

text \<open>\<open>s.strip(chars)\<close>.\<close>

definition strip_chars :: "string \<Rightarrow> string \<Rightarrow> string" where
  "strip_chars chars s =
     rev (dropWhile (\<lambda>c. c \<in> set chars) (rev (dropWhile (\<lambda>c. c \<in> set chars) s)))"

text \<open>
  The metric name and the aggregation from the select clause: a function call
  \<open>f(field)\<close> when there is one, the bare field otherwise.
\<close>

definition influxql_selection :: "string \<Rightarrow> string \<Rightarrow> error + (string \<times> string)" where
  "influxql_selection select_clause measurement =
     (case search function_pattern select_clause of
        Some (m, rest) \<Rightarrow>
          (case attr (group m 1) of
             Inl e \<Rightarrow> Inl e
           | Inr g1 \<Rightarrow>
               (case attr (group m 2) of
                  Inl e \<Rightarrow> Inl e
                | Inr g2 \<Rightarrow>
                    Inr (measurement @ ''_'' @ strip_chars [dquote, CHR 0x27] g2,
                         (case map_of influxql_func_map (lower g1) of None \<Rightarrow> [] | Some f \<Rightarrow> f))))
      | None \<Rightarrow> Inr (measurement @ ''_'' @ strip_chars [dquote, CHR 0x27] select_clause, []))"

text \<open>
  The time range of the where clause; \<open>"now()" in time_value\<close> raises \<open>TypeError\<close> on
  \<open>None\<close>.
\<close>

definition influxql_time_range :: "string \<Rightarrow> error + string" where
  "influxql_time_range where_clause =
     (case search time_pattern where_clause of
        None \<Rightarrow> Inr []
      | Some (m, rest) \<Rightarrow>
          (case group m 2 of
             None \<Rightarrow> Inl TypeError
           | Some time_value \<Rightarrow>
               if contains ''now()'' time_value \<and> contains ''-'' time_value then
                 (case search duration_pattern time_value of
                    None \<Rightarrow> Inr []
                  | Some (d, rest') \<Rightarrow>
                      Inr (''['' @ py_format (group d 1) @ py_format (group d 2) @ '']''))
               else Inr []))"

definition influxql_filters :: "string \<Rightarrow> string list" where
  "influxql_filters where_clause =
     map (\<lambda>m. py_format (group m 1) @ ''='' @ [dquote] @ py_format (group m 2) @ [dquote])
       (finditer tag_pattern where_clause)"

definition influxql_where :: "string \<Rightarrow> error + (string list \<times> string)" where
  "influxql_where influxql_query =
     (case search where_pattern influxql_query of
        None \<Rightarrow> Inr ([], [])
      | Some (m, rest) \<Rightarrow>
          (case attr (group m 1) of
             Inl e \<Rightarrow> Inl e
           | Inr g1 \<Rightarrow>
               (case influxql_time_range (strip g1) of
                  Inl e \<Rightarrow> Inl e
                | Inr time_range \<Rightarrow> Inr (influxql_filters (strip g1), time_range))))"

text \<open>The \<open>GROUP BY\<close> clause is searched for and not used.\<close>

definition convert_influxql_to_promql :: "string \<Rightarrow> error + string" where
  "convert_influxql_to_promql influxql_query =
     (case search select_pattern influxql_query of
        None \<Rightarrow> Inr ''Error: Could not parse InfluxQL SELECT statement''
      | Some (m, rest) \<Rightarrow>
          (case attr (group m 1) of
             Inl e \<Rightarrow> Inl e
           | Inr g1 \<Rightarrow>
               (case attr (group m 2) of
                  Inl e \<Rightarrow> Inl e
                | Inr g2 \<Rightarrow>
                    (case influxql_selection (strip g1) (strip g2) of
                       Inl e \<Rightarrow> Inl e
                     | Inr (metric_name, promql_function) \<Rightarrow>
                         (case influxql_where influxql_query of
                            Inl e \<Rightarrow> Inl e
                          | Inr (filters, time_range) \<Rightarrow>
                              Inr (compose_promql metric_name filters time_range
                                     promql_function))))))"

subsection \<open>\<open>influx_to_promql\<close>\<close>

text \<open>\<open>force_type if force_type else detect_query_type(query)\<close>\<close>

definition query_type_of :: "string \<Rightarrow> string option \<Rightarrow> string" where
  "query_type_of query force_type =
     (case force_type of
        None \<Rightarrow> detect_query_type query
      | Some t \<Rightarrow> if t \<noteq> [] then t else detect_query_type query)"

definition influx_to_promql :: "string \<Rightarrow> string option \<Rightarrow> error + string" where
  "influx_to_promql query force_type =
     (let query_type = query_type_of query force_type
      in if query_type = ''flux'' then convert_flux_to_promql query
         else if query_type = ''influxql'' then convert_influxql_to_promql query
         else Inr ''Error: Could not determine query type. Please specify using --type'')"

section \<open>A stand-in for the library parameters\<close>

text \<open>
  \<open>stdlib\<close> is an instance of the library parameters used to run the definitions on
  concrete inputs. Floats are rationals. It reads timestamps of the shapes
  \<open>YYYY-MM-DD\<close> and \<open>YYYY-MM-DD?HH:MM:SS[.fff[fff]][(+|-)HH:MM]\<close> (a timestamp without
  offset is taken as UTC) and numbers in decimal notation without exponent, and answers
  \<open>ValueError\<close> on any other string. The general theorems below hold for every
  instance, not only this one.
\<close>

definition take_digits :: "nat \<Rightarrow> string \<Rightarrow> (nat \<times> string) option" where
  "take_digits n s =
     (if n \<le> length s \<and> list_all is_digit (take n s)
      then Some (digits_val (take n s), drop n s) else None)"

definition expect_char :: "char \<Rightarrow> string \<Rightarrow> string option" where
  "expect_char c s = (case s of [] \<Rightarrow> None | x # xs \<Rightarrow> if x = c then Some xs else None)"

definition is_leap :: "nat \<Rightarrow> bool" where
  "is_leap y = (y mod 4 = 0 \<and> (y mod 100 \<noteq> 0 \<or> y mod 400 = 0))"

definition days_in_month :: "nat \<Rightarrow> nat \<Rightarrow> nat" where
  "days_in_month y m =
     (if m = 2 then (if is_leap y then 29 else 28)
      else if m = 4 \<or> m = 6 \<or> m = 9 \<or> m = 11 then 30 else 31)"

definition days_before_year :: "nat \<Rightarrow> nat" where
  "days_before_year y = (y - 1) * 365 + (y - 1) div 4 - (y - 1) div 100 + (y - 1) div 400"

definition days_before_month :: "nat \<Rightarrow> nat \<Rightarrow> nat" where
  "days_before_month y m = sum_list (map (days_in_month y) [1..<m])"

text \<open>Days from 0001-01-01 (day 1) to the given date, as \<open>date.toordinal()\<close>.\<close>

definition ymd2ord :: "nat \<Rightarrow> nat \<Rightarrow> nat \<Rightarrow> nat" where
  "ymd2ord y m d = days_before_year y + days_before_month y m + d"

definition parse_date :: "string \<Rightarrow> (nat \<times> string) option" where
  "parse_date s =
     (case take_digits 4 s of None \<Rightarrow> None | Some (y, s1) \<Rightarrow>
      case expect_char CHR ''-'' s1 of None \<Rightarrow> None | Some s2 \<Rightarrow>
      case take_digits 2 s2 of None \<Rightarrow> None | Some (m, s3) \<Rightarrow>
      case expect_char CHR ''-'' s3 of None \<Rightarrow> None | Some s4 \<Rightarrow>
      case take_digits 2 s4 of None \<Rightarrow> None | Some (d, s5) \<Rightarrow>
        if 1 \<le> y \<and> 1 \<le> m \<and> m \<le> 12 \<and> 1 \<le> d \<and> d \<le> days_in_month y m
        then Some (ymd2ord y m d, s5) else None)"

text \<open>\<open>HH:MM\<close>, in seconds.\<close>

definition parse_hh_mm :: "string \<Rightarrow> (nat \<times> string) option" where
  "parse_hh_mm s =
     (case take_digits 2 s of None \<Rightarrow> None | Some (h, s1) \<Rightarrow>
      case expect_char CHR '':'' s1 of None \<Rightarrow> None | Some s2 \<Rightarrow>
      case take_digits 2 s2 of None \<Rightarrow> None | Some (mi, s3) \<Rightarrow>
        if h < 24 \<and> mi < 60 then Some (h * 3600 + mi * 60, s3) else None)"

text \<open>\<open>HH:MM:SS[.fff[fff]]\<close>, in microseconds.\<close>

definition parse_time :: "string \<Rightarrow> (nat \<times> string) option" where
  "parse_time s =
     (case parse_hh_mm s of None \<Rightarrow> None | Some (hm, s1) \<Rightarrow>
      case expect_char CHR '':'' s1 of None \<Rightarrow> None | Some s2 \<Rightarrow>
      case take_digits 2 s2 of None \<Rightarrow> None | Some (sec, s3) \<Rightarrow>
        if 60 \<le> sec then None
        else (case expect_char CHR ''.'' s3 of
                None \<Rightarrow> Some ((hm + sec) * 1000000, s3)
              | Some s4 \<Rightarrow>
                  (case take_digits 6 s4 of
                     Some (us, s5) \<Rightarrow> Some ((hm + sec) * 1000000 + us, s5)
                   | None \<Rightarrow>
                       (case take_digits 3 s4 of
                          Some (ms, s5) \<Rightarrow> Some ((hm + sec) * 1000000 + ms * 1000, s5)
                        | None \<Rightarrow> None))))"

text \<open>The offset from UTC in seconds; none is read as UTC.\<close>

definition parse_offset :: "string \<Rightarrow> int option" where
  "parse_offset s =
     (case s of
        [] \<Rightarrow> Some 0
      | c # cs \<Rightarrow>
          if c = CHR ''+'' \<or> c = CHR ''-'' then
            (case parse_hh_mm cs of
               Some (off, []) \<Rightarrow> Some (if c = CHR ''-'' then - int off else int off)
             | _ \<Rightarrow> None)
          else None)"

definition epoch_ordinal :: nat where
  "epoch_ordinal = 719163"

text \<open>Microseconds since 1970-01-01T00:00:00 UTC.\<close>

definition iso_micros :: "string \<Rightarrow> int option" where
  "iso_micros s =
     (case parse_date s of None \<Rightarrow> None | Some (ord, rest) \<Rightarrow>
        let day_us = (int ord - int epoch_ordinal) * 86400 * 1000000 in
        (case rest of
           [] \<Rightarrow> Some day_us
         | sep # ts \<Rightarrow>
             (case parse_time ts of None \<Rightarrow> None | Some (us, rest') \<Rightarrow>
              case parse_offset rest' of None \<Rightarrow> None | Some off \<Rightarrow>
                Some (day_us + int us - off * 1000000))))"

text \<open>Rounding towards zero, as \<open>int(x)\<close> does.\<close>

definition trunc_div :: "int \<Rightarrow> int \<Rightarrow> int" where
  "trunc_div a b = (if a < 0 then - ((- a) div b) else a div b)"

definition std_fromisoformat_ms :: "string \<Rightarrow> error + int" where
  "std_fromisoformat_ms s =
     (case iso_micros s of None \<Rightarrow> Inl ValueError | Some us \<Rightarrow> Inr (trunc_div us 1000))"

text \<open>A decimal numeral \<open>[+|-]digits[.digits]\<close> with at least one digit, surrounded by blanks.\<close>

definition parse_decimal :: "string \<Rightarrow> rat option" where
  "parse_decimal s =
     (let t = strip s;
          neg = (t \<noteq> [] \<and> hd t = CHR ''-'');
          u = (if t \<noteq> [] \<and> (hd t = CHR ''-'' \<or> hd t = CHR ''+'') then tl t else t);
          ip = takeWhile (\<lambda>c. c \<noteq> CHR ''.'') u;
          fp = (case dropWhile (\<lambda>c. c \<noteq> CHR ''.'') u of [] \<Rightarrow> [] | _ # r \<Rightarrow> r)
      in if list_all is_digit ip \<and> list_all is_digit fp \<and> ip @ fp \<noteq> []
         then Some ((if neg then - 1 else 1) * of_nat (digits_val (ip @ fp)) / of_nat (10 ^ length fp))
         else None)"

definition rat_trunc :: "rat \<Rightarrow> int" where
  "rat_trunc x = (if x < 0 then - \<lfloor>- x\<rfloor> else \<lfloor>x\<rfloor>)"

definition std_to_float :: "rat pyval \<Rightarrow> error + rat" where
  "std_to_float v =
     (case v of
        PNone \<Rightarrow> Inl TypeError
      | PBool b \<Rightarrow> Inr (if b then 1 else 0)
      | PInt i \<Rightarrow> Inr (of_int i)
      | PFloat x \<Rightarrow> Inr x
      | PStr s \<Rightarrow> (case parse_decimal s of None \<Rightarrow> Inl ValueError | Some x \<Rightarrow> Inr x))"

fun frac_digits :: "nat \<Rightarrow> nat \<Rightarrow> nat \<Rightarrow> string" where
  "frac_digits 0 r d = []"
| "frac_digits (Suc fuel) r d =
     (if r = 0 then [] else digit_char (r * 10 div d) # frac_digits fuel (r * 10 mod d) d)"

definition std_float_str :: "rat \<Rightarrow> string" where
  "std_float_str x =
     (let a = \<bar>x\<bar>; ip = nat \<lfloor>a\<rfloor>; (n, d) = quotient_of (a - of_nat ip)
      in (if x < 0 then ''-'' else []) @ str_nat ip @ ''.''
           @ (if n = 0 then ''0'' else frac_digits 17 (nat n) (nat d)))"

definition stdlib :: "rat pylib" where
  "stdlib =
     \<lparr>fromisoformat_ms = std_fromisoformat_ms,
      to_float = std_to_float,
      float_times = (\<lambda>x n. x * of_int n),
      float_to_int = (\<lambda>x. Inr (rat_trunc x)),
      float_str = std_float_str,
      float_value = Some\<rparr>"

section \<open>Fixtures of the repository's tests\<close>

text \<open>
  The annotated CSV of \<open>test_influx_to_prometheus\<close> in \<open>tests/test_main.py\<close> and the
  text that test expects.
\<close>

definition test_csv_data :: string where
  "test_csv_data =
     ''#group,false,false,true,true,false,false,true,true,true'' @ [newline] @
     ''#datatype,string,long,dateTime:RFC3339,dateTime:RFC3339,dateTime:RFC3339,double,string,string,string'' @ [newline] @
     ''#default,_result,,,,,,,,,'' @ [newline] @
     '',result,table,_start,_stop,_time,_value,_field,_measurement,host'' @ [newline] @
     '',,0,2023-01-01T00:00:00Z,2023-01-01T12:00:00Z,2023-01-01T06:00:00Z,90.5,usage_user,cpu,server01'' @ [newline] @
     '',,0,2023-01-01T00:00:00Z,2023-01-01T12:00:00Z,2023-01-01T07:00:00Z,91.2,usage_system,cpu,server01'' @ [newline]"

definition test_expected :: string where
  "test_expected =
     ''cpu_usage_user{host='' @ [dquote] @ ''server01'' @ [dquote] @ ''} 90.5 1672552800000'' @ [newline] @
     ''cpu_usage_system{host='' @ [dquote] @ ''server01'' @ [dquote] @ ''} 91.2 1672556400000''"

text \<open>The same two rows under a header of the four reserved columns and \<open>host\<close> only.\<close>

definition plain_csv_data :: string where
  "plain_csv_data =
     ''_time,_value,_field,_measurement,host'' @ [newline] @
     ''2023-01-01T06:00:00Z,90.5,usage_user,cpu,server01'' @ [newline] @
     ''2023-01-01T07:00:00Z,91.2,usage_system,cpu,server01'' @ [newline]"

text \<open>
  The Flux query of \<open>test_convert_flux_to_promql_with_aggregation\<close> in
  \<open>tests/test_influx2promql.py\<close>.
\<close>

definition test_flux_query :: string where
  "test_flux_query =
     ''from(bucket: '' @ [dquote] @ ''system'' @ [dquote] @ '') |> range(start: -1h) ''
     @ ''|> filter(fn: (r) => r._measurement == '' @ [dquote] @ ''cpu'' @ [dquote]
     @ '' and r._field == '' @ [dquote] @ ''usage_user'' @ [dquote] @ '') |> mean()''"

section \<open>Properties of the legacy path\<close>

subsection \<open>Timestamps\<close>

text \<open>
  Claim C5, corrected. When the ISO parser raises \<open>ValueError\<close> and the numeric reading
  of the text, \<open>int(float(timestamp) * 1000)\<close>, fails too (\<open>float\<close> raises, or \<open>int\<close>
  raises on the product), \<open>format_timestamp\<close> lets the error of the numeric reading reach
  the caller only for a text of at most 12 characters; a longer text is returned as it is,
  since the length test comes before any numeric reading.
\<close>

theorem format_timestamp_unparseable:
  assumes "fromisoformat_ms L (str_replace CHR ''Z'' ''+00:00'' ts) = Inl ValueError"
    and "(case to_float L (PStr ts) of
            Inl e' \<Rightarrow> Inl e'
          | Inr x \<Rightarrow> float_to_int L (float_times L x 1000)) = Inl e"
  shows "format_timestamp L ts = (if length ts \<le> 12 then Inl e else Inr ts)"
proof (cases "to_float L (PStr ts)")
  case (Inl e')
  with assms show ?thesis by (simp add: format_timestamp_def)
next
  case (Inr x)
  with assms show ?thesis by (simp add: format_timestamp_def)
qed

theorem format_timestamp_unparseable_witness:
  "fromisoformat_ms stdlib (str_replace CHR ''Z'' ''+00:00'' ''12 o'clock'') = Inl ValueError
   \<and> to_float stdlib (PStr ''12 o'clock'') = Inl ValueError
   \<and> format_timestamp stdlib ''12 o'clock'' = Inl ValueError"
proof -
  have iso: "fromisoformat_ms stdlib (str_replace CHR ''Z'' ''+00:00'' ''12 o'clock'') = Inl ValueError"
    by code_simp
  have float: "to_float stdlib (PStr ''12 o'clock'') = Inl ValueError"
    by code_simp
  have num: "(case to_float stdlib (PStr ''12 o'clock'') of
                Inl e' \<Rightarrow> Inl e'
              | Inr x \<Rightarrow> float_to_int stdlib (float_times stdlib x 1000)) = Inl ValueError"
    unfolding float by simp
  from format_timestamp_unparseable [OF iso num] iso float show ?thesis by simp
qed

text \<open>
  The claim as it is written fails on a text of 13 characters that is neither a timestamp
  nor a number: it comes back unchanged.
\<close>

theorem format_timestamp_long_text_returned:
  "fromisoformat_ms stdlib (str_replace CHR ''Z'' ''+00:00'' ''hello world!!'') = Inl ValueError
   \<and> to_float stdlib (PStr ''hello world!!'') = Inl ValueError
   \<and> format_timestamp stdlib ''hello world!!'' = Inr ''hello world!!''"
  by code_simp

lemma digits_val_snoc: "digits_val (s @ [c]) = 10 * digits_val s + digit_val c"
  by (simp add: digits_val_def)

lemma digit_val_le: "is_digit c \<Longrightarrow> digit_val c \<le> 9"
  by (auto simp: is_digit_def digit_val_def less_eq_char_def)

lemma digits_val_bound: "list_all is_digit s \<Longrightarrow> digits_val s < 10 ^ length s"
proof (induction s rule: rev_induct)
  case Nil
  then show ?case by (simp add: digits_val_def)
next
  case (snoc c s)
  then have "digits_val s < 10 ^ length s" and "digit_val c \<le> 9"
    by (simp_all add: digit_val_le)
  then have "10 * digits_val s + digit_val c < 10 * 10 ^ length s" by linarith
  then show ?case by (simp add: digits_val_snoc)
qed

lemma exact_floats_read:
  "exact_floats L \<Longrightarrow> s \<noteq> [] \<Longrightarrow> list_all is_digit s \<Longrightarrow> digits_val s < 2 ^ 53
     \<Longrightarrow> \<exists>x. to_float L (PStr s) = Inr x \<and> float_value L x = Some (of_nat (digits_val s))"
  unfolding exact_floats_def by blast

lemma exact_floats_times:
  "exact_floats L \<Longrightarrow> float_value L x = Some q \<Longrightarrow> q * of_int n \<in> \<int>
     \<Longrightarrow> \<bar>q * of_int n\<bar> < 2 ^ 53 \<Longrightarrow> \<bar>n\<bar> < 2 ^ 53
     \<Longrightarrow> float_value L (float_times L x n) = Some (q * of_int n)"
  unfolding exact_floats_def by blast

lemma exact_floats_int:
  "exact_floats L \<Longrightarrow> float_value L x = Some (of_int i) \<Longrightarrow> float_to_int L x = Inr i"
  unfolding exact_floats_def by blast

text \<open>
  Claim C6. For a text of decimal digits that the ISO parser rejects, \<open>format_timestamp\<close>
  takes a text of at most 12 digits as seconds: it reads it with \<open>float\<close>, multiplies by
  1000 and truncates with \<open>int\<close>, and the result is the number of the text times 1000; a
  text of 13 or more digits is returned unchanged. The floats are those of
  \<open>exact_floats\<close>: the number of at most 12 digits and its product with 1000 are below
  \<open>2^53\<close>, so no rounding takes place.
\<close>

theorem format_timestamp_digits:
  assumes "exact_floats L"
    and "ts \<noteq> []" and "list_all is_digit ts"
    and "fromisoformat_ms L (str_replace CHR ''Z'' ''+00:00'' ts) = Inl ValueError"
  shows "format_timestamp L ts =
           Inr (if length ts \<le> 12 then str_int (int (digits_val ts) * 1000) else ts)"
proof (cases "length ts \<le> 12")
  case False
  with assms(4) show ?thesis by (simp add: format_timestamp_def)
next
  case True
  let ?v = "digits_val ts"
  have "?v < 10 ^ length ts" using assms(3) by (rule digits_val_bound)
  also have "(10::nat) ^ length ts \<le> 10 ^ 12" using True by (intro power_increasing) simp_all
  finally have v: "?v < 10 ^ 12" .
  then have small: "?v < 2 ^ 53" by simp
  from exact_floats_read [OF assms(1-3) small] obtain x
    where x: "to_float L (PStr ts) = Inr x" "float_value L x = Some (of_nat ?v)"
    by blast
  have prod: "(of_nat ?v :: rat) * of_int 1000 = of_int (int ?v * 1000)" by simp
  have "int ?v * 1000 < 10 ^ 12 * 1000" using v by simp
  then have "int ?v * 1000 < 2 ^ 53" by simp
  then have "(of_int (int ?v * 1000) :: rat) < of_int (2 ^ 53)"
    by (simp only: of_int_less_iff)
  then have bound: "\<bar>(of_nat ?v :: rat) * of_int 1000\<bar> < 2 ^ 53"
    unfolding prod by simp
  have isint: "(of_nat ?v :: rat) * of_int 1000 \<in> \<int>" unfolding prod by (rule Ints_of_int)
  have n: "\<bar>1000 :: int\<bar> < 2 ^ 53" by simp
  have "float_value L (float_times L x 1000) = Some (of_nat ?v * of_int 1000)"
    by (rule exact_floats_times [OF assms(1) x(2) isint bound n])
  then have "float_value L (float_times L x 1000) = Some (of_int (int ?v * 1000))"
    unfolding prod .
  then have "float_to_int L (float_times L x 1000) = Inr (int ?v * 1000)"
    by (rule exact_floats_int [OF assms(1)])
  with True assms(4) x(1) show ?thesis by (simp add: format_timestamp_def)
qed

text \<open>The stand-in library has exact floats.\<close>

lemma digit_not_space: "is_digit c \<Longrightarrow> \<not> is_space c"
  by (auto simp: is_digit_def is_space_def less_eq_char_def Let_def)

lemma digit_not_sign: "is_digit c \<Longrightarrow> c \<noteq> CHR ''-'' \<and> c \<noteq> CHR ''+'' \<and> c \<noteq> CHR ''.''"
  by (auto simp: is_digit_def less_eq_char_def)

lemma strip_digits: "s \<noteq> [] \<Longrightarrow> list_all is_digit s \<Longrightarrow> strip s = s"
proof -
  assume ne: "s \<noteq> []" and d: "list_all is_digit s"
  then have "\<not> is_space (hd s)" by (cases s) (auto simp: digit_not_space)
  with ne have a: "dropWhile is_space s = s" by (cases s) auto
  from ne d have "\<not> is_space (hd (rev s))"
    by (cases s rule: rev_cases) (auto simp: digit_not_space)
  with ne have "dropWhile is_space (rev s) = rev s" by (cases "rev s") auto
  with a show ?thesis by (simp add: strip_def)
qed

lemma parse_decimal_digits:
  assumes "s \<noteq> []" and "list_all is_digit s"
  shows "parse_decimal s = Some (of_nat (digits_val s))"
proof -
  from assms obtain c cs where s: "s = c # cs" by (cases s) auto
  with assms have c: "is_digit c" by simp
  have tw: "takeWhile (\<lambda>c. c \<noteq> CHR ''.'') s = s"
    using assms(2) by (auto simp: takeWhile_eq_all_conv list_all_iff digit_not_sign)
  have dw: "dropWhile (\<lambda>c. c \<noteq> CHR ''.'') s = []"
    using assms(2) by (auto simp: dropWhile_eq_Nil_conv list_all_iff digit_not_sign)
  show ?thesis
    using assms c digit_not_sign [OF c]
    by (simp add: parse_decimal_def strip_digits Let_def tw dw) (simp add: s)
qed

lemma rat_trunc_of_int: "rat_trunc (of_int i) = i"
  by (simp add: rat_trunc_def)

lemma stdlib_exact_floats: "exact_floats stdlib"
  unfolding exact_floats_def
proof (intro conjI allI impI)
  fix s assume "s \<noteq> [] \<and> list_all is_digit s \<and> digits_val s < 2 ^ 53"
  then have "parse_decimal s = Some (of_nat (digits_val s))"
    by (simp add: parse_decimal_digits)
  then show "\<exists>x. to_float stdlib (PStr s) = Inr x
      \<and> float_value stdlib x = Some (of_nat (digits_val s))"
    by (simp add: stdlib_def std_to_float_def)
next
  fix x :: rat and q n
  assume "float_value stdlib x = Some q \<and> q * of_int n \<in> \<int> \<and> \<bar>q * of_int n\<bar> < 2 ^ 53
      \<and> \<bar>n\<bar> < 2 ^ 53"
  then show "float_value stdlib (float_times stdlib x n) = Some (q * of_int n)"
    by (simp add: stdlib_def)
next
  fix x :: rat and i
  assume "float_value stdlib x = Some (of_int i)"
  then show "float_to_int stdlib x = Inr i"
    by (simp add: stdlib_def rat_trunc_of_int)
qed

theorem format_timestamp_digits_witness:
  "exact_floats stdlib
   \<and> format_timestamp stdlib ''999999999999'' = Inr ''999999999999000''
   \<and> format_timestamp stdlib ''1000000000000'' = Inr ''1000000000000''"
proof -
  have d12: "''999999999999'' \<noteq> []" "list_all is_digit ''999999999999''"
    and iso12: "fromisoformat_ms stdlib (str_replace CHR ''Z'' ''+00:00'' ''999999999999'') = Inl ValueError"
    by code_simp+
  have d13: "''1000000000000'' \<noteq> []" "list_all is_digit ''1000000000000''"
    and iso13: "fromisoformat_ms stdlib (str_replace CHR ''Z'' ''+00:00'' ''1000000000000'') = Inl ValueError"
    by code_simp+
  have v12: "str_int (int (digits_val ''999999999999'') * 1000) = ''999999999999000''"
    by code_simp
  from format_timestamp_digits [OF stdlib_exact_floats d12 iso12]
  have "format_timestamp stdlib ''999999999999'' = Inr ''999999999999000''"
    by (simp add: v12)
  moreover from format_timestamp_digits [OF stdlib_exact_floats d13 iso13]
  have "format_timestamp stdlib ''1000000000000'' = Inr ''1000000000000''"
    by simp
  ultimately show ?thesis using stdlib_exact_floats by simp
qed

subsection \<open>Tags\<close>

lemma index_of_Some: "index_of x xs = Some n \<Longrightarrow> n < length xs \<and> xs ! n = x"
  by (induction xs arbitrary: n) (auto split: if_splits)

lemma extract_tags_keys:
  "fst ` set (extract_tags i hs row tags) =
     fst ` set tags \<union>
     {hs ! j | j. j < length hs \<and> \<not> startswith (hs ! j) ''_'' \<and> i + j < length row \<and> row ! (i + j) \<noteq> []}"
proof (induction hs arbitrary: i tags)
  case Nil
  then show ?case by simp
next
  case (Cons h hs)
  let ?P = "\<lambda>k j. j < length hs \<and> \<not> startswith (hs ! j) ''_'' \<and> k + j < length row \<and> row ! (k + j) \<noteq> []"
  let ?c = "\<not> startswith h ''_'' \<and> i < length row \<and> row ! i \<noteq> []"
  have split: "{(h # hs) ! j | j. j < length (h # hs) \<and> \<not> startswith ((h # hs) ! j) ''_'' \<and> i + j < length row \<and> row ! (i + j) \<noteq> []}
      = (if ?c then {h} else {}) \<union> {hs ! j | j. ?P (Suc i) j}" (is "?A = ?B")
  proof (rule set_eqI)
    fix x
    show "x \<in> ?A \<longleftrightarrow> x \<in> ?B"
    proof
      assume "x \<in> ?A"
      then obtain j where j: "x = (h # hs) ! j" "j < length (h # hs)" "\<not> startswith ((h # hs) ! j) ''_''"
        "i + j < length row" "row ! (i + j) \<noteq> []" by blast
      show "x \<in> ?B"
      proof (cases j)
        case 0
        with j show ?thesis by simp
      next
        case (Suc k)
        with j have "?P (Suc i) k" "x = hs ! k" by simp_all
        then show ?thesis by blast
      qed
    next
      assume "x \<in> ?B"
      then consider "?c" "x = h" | k where "?P (Suc i) k" "x = hs ! k"
        by (auto split: if_splits)
      then show "x \<in> ?A"
      proof cases
        case 1
        then have "x = (h # hs) ! 0 \<and> 0 < length (h # hs) \<and> \<not> startswith ((h # hs) ! 0) ''_'' \<and> i + 0 < length row \<and> row ! (i + 0) \<noteq> []"
          by simp
        then show ?thesis by blast
      next
        case 2
        then have "x = (h # hs) ! Suc k \<and> Suc k < length (h # hs) \<and> \<not> startswith ((h # hs) ! Suc k) ''_'' \<and> i + Suc k < length row \<and> row ! (i + Suc k) \<noteq> []"
          by simp
        then show ?thesis by blast
      qed
    qed
  qed
  show ?case
    unfolding split by (simp add: Cons.IH dom_update)
qed

lemma extract_tags_other:
  "h \<notin> set hs \<Longrightarrow> map_of (extract_tags i hs row tags) h = map_of tags h"
  by (induction hs arbitrary: i tags) (auto simp: update_conv')

lemma extract_tags_value:
  "distinct hs \<Longrightarrow> j < length hs \<Longrightarrow> \<not> startswith (hs ! j) ''_'' \<Longrightarrow> i + j < length row
     \<Longrightarrow> row ! (i + j) \<noteq> [] \<Longrightarrow> map_of (extract_tags i hs row tags) (hs ! j) = Some (row ! (i + j))"
proof (induction hs arbitrary: i j tags)
  case Nil
  then show ?case by simp
next
  case (Cons h hs)
  show ?case
  proof (cases j)
    case 0
    with Cons.prems show ?thesis
      by (simp add: extract_tags_other update_conv')
  next
    case (Suc k)
    with Cons.prems have "map_of (extract_tags (Suc i) hs row tags') (hs ! k) = Some (row ! (Suc i + k))" for tags'
      by (intro Cons.IH) simp_all
    with Suc show ?thesis by simp
  qed
qed

text \<open>
  Claim C4, corrected. The tags of the record of a data row are the headers that do not
  begin with an underscore and whose cell in the row is present and not empty; a header
  that begins with an underscore, reserved or not, is never a tag. With distinct header
  names the value of such a tag is the cell.
\<close>

theorem parse_row_tags:
  "(h \<in> fst ` set (item_tags (parse_row ti mi fi vi headers row))) =
     (\<not> startswith h ''_'' \<and> (\<exists>j<length headers. headers ! j = h \<and> j < length row \<and> row ! j \<noteq> []))
   \<and> (distinct headers \<longrightarrow>
        (\<forall>j<length headers. \<not> startswith (headers ! j) ''_'' \<and> j < length row \<and> row ! j \<noteq> []
           \<longrightarrow> map_of (item_tags (parse_row ti mi fi vi headers row)) (headers ! j) = Some (row ! j)))"
proof (intro conjI impI allI)
  show "(h \<in> fst ` set (item_tags (parse_row ti mi fi vi headers row))) =
     (\<not> startswith h ''_'' \<and> (\<exists>j<length headers. headers ! j = h \<and> j < length row \<and> row ! j \<noteq> []))"
    unfolding parse_row_def by (simp add: extract_tags_keys) blast
next
  fix j
  assume "distinct headers"
    and "j < length headers"
    and "\<not> startswith (headers ! j) ''_'' \<and> j < length row \<and> row ! j \<noteq> []"
  then show "map_of (item_tags (parse_row ti mi fi vi headers row)) (headers ! j) = Some (row ! j)"
    unfolding parse_row_def using extract_tags_value [of headers j 0 row "[]"] by simp
qed

theorem parse_row_tags_witness:
  "distinct [''_time'', ''_measurement'', ''_field'', ''_value'', ''host'']
   \<and> ''host'' \<in> fst ` set (item_tags (parse_row 0 1 2 3
        [''_time'', ''_measurement'', ''_field'', ''_value'', ''host'']
        [''2023-01-01T06:00:00Z'', ''cpu'', ''usage_user'', ''90.5'', ''server01'']))
   \<and> map_of (item_tags (parse_row 0 1 2 3
        [''_time'', ''_measurement'', ''_field'', ''_value'', ''host'']
        [''2023-01-01T06:00:00Z'', ''cpu'', ''usage_user'', ''90.5'', ''server01''])) ''host''
       = Some ''server01''"
proof -
  let ?hs = "[''_time'', ''_measurement'', ''_field'', ''_value'', ''host'']"
  let ?row = "[''2023-01-01T06:00:00Z'', ''cpu'', ''usage_user'', ''90.5'', ''server01'']"
  have d: "distinct ?hs" by simp
  have c: "\<not> startswith (?hs ! 4) ''_'' \<and> (\<exists>j<length ?hs. ?hs ! j = ?hs ! 4 \<and> j < length ?row \<and> ?row ! j \<noteq> [])"
    by (simp add: startswith_def) (rule exI [of _ 4], simp)
  have v: "(4::nat) < length ?hs" "\<not> startswith (?hs ! 4) ''_'' \<and> 4 < length ?row \<and> ?row ! 4 \<noteq> []"
    by (simp_all add: startswith_def)
  note t = parse_row_tags [of "?hs ! 4" 0 1 2 3 ?hs ?row]
  from t c have "?hs ! 4 \<in> fst ` set (item_tags (parse_row 0 1 2 3 ?hs ?row))" by blast
  moreover from t d v have "map_of (item_tags (parse_row 0 1 2 3 ?hs ?row)) (?hs ! 4) = Some (?row ! 4)"
    by blast
  ultimately show ?thesis using d by simp
qed

text \<open>
  The claim as it is written fails on a \<open>_start\<close> column: it is not reserved and its
  cell is not empty, yet the record has no tag.
\<close>

theorem underscore_header_is_no_tag:
  "parse_influxdb_csv
     (''_time,_measurement,_field,_value,_start'' @ [newline] @
      ''2023-01-01T06:00:00Z,cpu,usage_user,90.5,2023-01-01T00:00:00Z'' @ [newline])
   = Inr [\<lparr>item_timestamp = ''2023-01-01T06:00:00Z'', item_measurement = ''cpu'',
           item_field = ''usage_user'', item_value = ''90.5'', item_tags = []\<rparr>]"
  by code_simp

subsection \<open>The value cell\<close>

lemma find_headers_skip:
  assumes "\<forall>row\<in>set pre. row = [] \<or> startswith (hd row) ''#''"
    and "headers \<noteq> []" and "\<not> startswith (hd headers) ''#''"
  shows "find_headers (map Inr pre @ Inr headers # rest) = Inr (Some headers, rest)"
  using assms by (induction pre) auto

lemma data_rows_map:
  "data_rows ti mi fi vi hs (map Inr data)
     = Inr (map (parse_row ti mi fi vi hs) (kept_rows ti mi fi vi data))"
  by (induction data) (auto simp: kept_rows_def)

lemma prometheus_lines_ok:
  "\<forall>it\<in>set items. \<exists>ts. format_timestamp L (item_timestamp it) = Inr ts \<Longrightarrow>
     prometheus_lines L items
       = Inr (map (\<lambda>it. prom_line it (projr (format_timestamp L (item_timestamp it)))) items)"
  by (induction items) auto

lemma prometheus_lines_error:
  "(\<exists>e. prometheus_lines L items = Inl e)
     \<longleftrightarrow> (\<exists>it\<in>set items. \<exists>e. format_timestamp L (item_timestamp it) = Inl e)"
  by (induction items) (auto split: sum.splits)

text \<open>
  Claim C9. Let the CSV reader yield, without error, rows that the header search skips,
  then the header row with the four reserved columns, then the data rows. Which data rows
  are kept depends on their number of cells only. \<open>parse_influxdb_csv\<close> returns one record
  per kept row, and \<open>influx_to_prometheus\<close> raises exactly when \<open>format_timestamp\<close> raises
  on the \<open>_time\<close> cell of a kept row, which is another cell than the \<open>_value\<close> cell;
  otherwise its text has one line per kept row, in order, joined by newlines, and the line
  of a row holds the \<open>_value\<close> cell of the row as it is, numeric or not, between the
  labels and the timestamp.
\<close>

theorem value_cell_verbatim:
  assumes "csv_reader csv_data = map Inr pre @ Inr headers # map Inr data"
    and "\<forall>row\<in>set pre. row = [] \<or> startswith (hd row) ''#''"
    and "headers \<noteq> []" and "\<not> startswith (hd headers) ''#''"
    and "index_of ''_time'' headers = Some ti"
    and "index_of ''_measurement'' headers = Some mi"
    and "index_of ''_field'' headers = Some fi"
    and "index_of ''_value'' headers = Some vi"
  shows "parse_influxdb_csv csv_data
           = Inr (map (parse_row ti mi fi vi headers) (kept_rows ti mi fi vi data))
    \<and> ((\<forall>row\<in>set (kept_rows ti mi fi vi data). \<exists>ts. format_timestamp L (row ! ti) = Inr ts) \<longrightarrow>
         influx_to_prometheus L csv_data =
           Inr (join [newline]
                  (map (\<lambda>row. row ! mi @ ''_'' @ row ! fi @ labels_str (extract_tags 0 headers row [])
                                @ '' '' @ row ! vi @ '' '' @ projr (format_timestamp L (row ! ti)))
                     (kept_rows ti mi fi vi data))))
    \<and> ((\<exists>e. influx_to_prometheus L csv_data = Inl e)
         \<longleftrightarrow> (\<exists>row\<in>set (kept_rows ti mi fi vi data). \<exists>e. format_timestamp L (row ! ti) = Inl e))
    \<and> vi \<noteq> ti"
proof -
  let ?kept = "kept_rows ti mi fi vi data"
  let ?items = "map (parse_row ti mi fi vi headers) ?kept"
  have parsed: "parse_influxdb_csv csv_data = Inr ?items"
    by (simp add: parse_influxdb_csv_def parse_rows_def assms(1)
          find_headers_skip [OF assms(2-4)] assms(5-8) data_rows_map)
  have ts: "item_timestamp (parse_row ti mi fi vi headers row) = row ! ti" for row
    by (simp add: parse_row_def)
  have ok: "influx_to_prometheus L csv_data =
      Inr (join [newline]
             (map (\<lambda>row. row ! mi @ ''_'' @ row ! fi @ labels_str (extract_tags 0 headers row [])
                           @ '' '' @ row ! vi @ '' '' @ projr (format_timestamp L (row ! ti))) ?kept))"
    if "\<forall>row\<in>set ?kept. \<exists>ts. format_timestamp L (row ! ti) = Inr ts"
  proof -
    from that have "\<forall>it\<in>set ?items. \<exists>ts. format_timestamp L (item_timestamp it) = Inr ts"
      by (simp add: ts)
    from prometheus_lines_ok [OF this] show ?thesis
      by (simp add: influx_to_prometheus_def parsed comp_def prom_line_def parse_row_def)
  qed
  have err: "(\<exists>e. influx_to_prometheus L csv_data = Inl e)
      \<longleftrightarrow> (\<exists>row\<in>set ?kept. \<exists>e. format_timestamp L (row ! ti) = Inl e)"
  proof -
    have "(\<exists>e. influx_to_prometheus L csv_data = Inl e) \<longleftrightarrow> (\<exists>e. prometheus_lines L ?items = Inl e)"
      by (auto simp: influx_to_prometheus_def parsed split: sum.splits)
    also have "\<dots> \<longleftrightarrow> (\<exists>it\<in>set ?items. \<exists>e. format_timestamp L (item_timestamp it) = Inl e)"
      by (rule prometheus_lines_error)
    also have "\<dots> \<longleftrightarrow> (\<exists>row\<in>set ?kept. \<exists>e. format_timestamp L (row ! ti) = Inl e)"
      by (simp add: ts)
    finally show ?thesis .
  qed
  have "vi \<noteq> ti"
    using index_of_Some [OF assms(5)] index_of_Some [OF assms(8)] by auto
  with parsed ok err show ?thesis by blast
qed

theorem value_cell_verbatim_witness:
  "influx_to_prometheus stdlib
     (''#datatype,string'' @ [newline] @ [newline] @ ''_time,_value,_field,_measurement,host'' @ [newline] @
      ''2023-01-01T06:00:00Z,n/a,usage_user,cpu,server01'' @ [newline] @ ''short,row'' @ [newline])
   = Inr (''cpu_usage_user{host='' @ [dquote] @ ''server01'' @ [dquote] @ ''} n/a 1672552800000'')"
proof -
  let ?csv = "''#datatype,string'' @ [newline] @ [newline] @ ''_time,_value,_field,_measurement,host'' @ [newline] @
      ''2023-01-01T06:00:00Z,n/a,usage_user,cpu,server01'' @ [newline] @ ''short,row'' @ [newline]"
  let ?pre = "[[''#datatype'', ''string''], []]"
  let ?hs = "[''_time'', ''_value'', ''_field'', ''_measurement'', ''host'']"
  let ?row = "[''2023-01-01T06:00:00Z'', ''n/a'', ''usage_user'', ''cpu'', ''server01'']"
  let ?data = "[?row, [''short'', ''row'']]"
  have reader: "csv_reader ?csv = map Inr ?pre @ Inr ?hs # map Inr ?data"
    by code_simp
  have pre: "\<forall>row\<in>set ?pre. row = [] \<or> startswith (hd row) ''#''"
    by (simp add: startswith_def)
  have hdr: "?hs \<noteq> []" "\<not> startswith (hd ?hs) ''#''"
    by (simp_all add: startswith_def)
  have i: "index_of ''_time'' ?hs = Some 0" "index_of ''_measurement'' ?hs = Some 3"
    "index_of ''_field'' ?hs = Some 2" "index_of ''_value'' ?hs = Some 1"
    by simp_all
  have all: "\<forall>row\<in>set (kept_rows 0 3 2 1 ?data). \<exists>ts. format_timestamp stdlib (row ! 0) = Inr ts"
  proof -
    have "kept_rows 0 3 2 1 ?data = [?row]" by (simp add: kept_rows_def)
    moreover have "format_timestamp stdlib (?row ! 0) = Inr ''1672552800000''" by code_simp
    ultimately show ?thesis by simp
  qed
  have out: "join [newline]
      (map (\<lambda>row. row ! 3 @ ''_'' @ row ! 2 @ labels_str (extract_tags 0 ?hs row [])
                    @ '' '' @ row ! 1 @ '' '' @ projr (format_timestamp stdlib (row ! 0)))
         (kept_rows 0 3 2 1 ?data))
      = ''cpu_usage_user{host='' @ [dquote] @ ''server01'' @ [dquote] @ ''} n/a 1672552800000''"
    by code_simp
  from value_cell_verbatim [OF reader pre hdr i, of stdlib, THEN conjunct2, THEN conjunct1] all
  have "influx_to_prometheus stdlib ?csv =
      Inr (join [newline]
             (map (\<lambda>row. row ! 3 @ ''_'' @ row ! 2 @ labels_str (extract_tags 0 ?hs row [])
                           @ '' '' @ row ! 1 @ '' '' @ projr (format_timestamp stdlib (row ! 0)))
                (kept_rows 0 3 2 1 ?data)))"
    by blast
  then show ?thesis unfolding out .
qed

subsection \<open>The end-to-end test\<close>

text \<open>
  Claim C1. On the annotated CSV of the repository's test, \<open>influx_to_prometheus\<close>
  does not return the two lines the test and the claim expect: the \<open>table\<close> column of
  the annotated CSV does not begin with an underscore and its cell is \<open>0\<close>, so each
  line carries the label \<open>table="0"\<close> before \<open>host\<close>.
\<close>

theorem influx_to_prometheus_test_csv:
  "influx_to_prometheus stdlib test_csv_data =
     Inr (''cpu_usage_user{table='' @ [dquote] @ ''0'' @ [dquote] @ '',host='' @ [dquote]
            @ ''server01'' @ [dquote] @ ''} 90.5 1672552800000'' @ [newline] @
          ''cpu_usage_system{table='' @ [dquote] @ ''0'' @ [dquote] @ '',host='' @ [dquote]
            @ ''server01'' @ [dquote] @ ''} 91.2 1672556400000'')
   \<and> influx_to_prometheus stdlib test_csv_data \<noteq> Inr test_expected"
  by code_simp

text \<open>
  Under a header of the four reserved columns and \<open>host\<close> alone the same two rows give
  the expected text.
\<close>

lemma influx_to_prometheus_plain_csv:
  "influx_to_prometheus stdlib plain_csv_data = Inr test_expected"
  by code_simp

section \<open>Properties of the grouped path\<close>

subsection \<open>Unparseable timestamps in \<open>convert_data\<close>\<close>





subsection \<open>Grouping\<close>

lemma first_seen_set [simp]: "set (first_seen xs) = set xs"
  by (induction xs rule: first_seen.induct) auto

lemma first_seen_distinct [simp]: "distinct (first_seen xs)"
  by (induction xs rule: first_seen.induct) auto

lemma first_seen_snoc:
  "first_seen (xs @ [x]) = (if x \<in> set xs then first_seen xs else first_seen xs @ [x])"
  by (induction xs rule: first_seen.induct) auto

lemma append_sep_inj:
  "c \<notin> set t \<Longrightarrow> c \<notin> set t' \<Longrightarrow> n @ c # t = n' @ c # t' \<Longrightarrow> n = n' \<and> t = t'"
proof (induction n arbitrary: n')
  case Nil
  then show ?case by (cases n') auto
next
  case (Cons x n)
  then show ?case by (cases n') auto
qed

lemma group_key_pair: "group_key m = pair_key (name_type m)"
  by (simp add: group_key_def pair_key_def name_type_def)

lemma pair_key_inj:
  "CHR '':'' \<notin> set (snd a) \<Longrightarrow> CHR '':'' \<notin> set (snd b) \<Longrightarrow> pair_key a = pair_key b \<Longrightarrow> a = b"
  using append_sep_inj [of "CHR '':''" "snd a" "snd b" "fst a" "fst b"]
  by (simp add: pair_key_def prod_eq_iff)

lemma valid_types_no_colon: "t \<in> set VALID_TYPES \<Longrightarrow> CHR '':'' \<notin> set t"
  by (auto simp: VALID_TYPES_def)

lemma map_of_keyed:
  "inj_on K (set as) \<Longrightarrow> a \<in> set as \<Longrightarrow> map_of (map (\<lambda>x. (K x, G x)) as) (K a) = Some (G a)"
  by (induction as) (auto simp: inj_on_def)

lemma map_of_keyed_none:
  "K a \<notin> K ` set as \<Longrightarrow> map_of (map (\<lambda>x. (K x, G x)) as) (K a) = None"
  by (induction as) auto

lemma update_keyed:
  "inj_on K (insert a (set as)) \<Longrightarrow> distinct as \<Longrightarrow>
     AList.update (K a) v (map (\<lambda>x. (K x, G x)) as)
       = (if a \<in> set as then map (\<lambda>x. (K x, if x = a then v else G x)) as
          else map (\<lambda>x. (K x, G x)) as @ [(K a, v)])"
proof (induction as)
  case Nil
  then show ?case by simp
next
  case (Cons x as)
  have inj: "inj_on K (insert a (set as))"
    using Cons.prems(1) by (rule inj_on_subset) auto
  have key: "K x = K a \<longleftrightarrow> x = a"
    using Cons.prems(1) by (auto simp: inj_on_def)
  show ?case
  proof (cases "x = a")
    case True
    with Cons.prems(2) have "a \<notin> set as" by simp
    then have "map (\<lambda>y. (K y, if y = a then v else G y)) as = map (\<lambda>y. (K y, G y)) as"
      by (intro map_cong) auto
    with True show ?thesis by simp
  next
    case False
    with Cons.IH [OF inj] Cons.prems(2) key show ?thesis by simp
  qed
qed

lemma metric_groups_snoc: "metric_groups (ms @ [m]) = add_to_group (metric_groups ms) m"
  by (simp add: metric_groups_def)

text \<open>
  The dictionary built by the grouping loop, when no type contains a colon: one entry per
  pair \<open>(name, type)\<close>, in the order of first occurrence, holding the samples of the
  pair in their input order.
\<close>

lemma metric_groups_spec:
  assumes "\<forall>m\<in>set ms. CHR '':'' \<notin> set (m_type m)"
  shows "metric_groups ms =
           map (\<lambda>nt. (pair_key nt, filter (\<lambda>m. name_type m = nt) ms))
             (first_seen (map name_type ms))"
  using assms
proof (induction ms rule: rev_induct)
  case Nil
  then show ?case by (simp add: metric_groups_def)
next
  case (snoc m ms)
  let ?nts = "first_seen (map name_type ms)"
  let ?G = "\<lambda>nt. filter (\<lambda>m. name_type m = nt) ms"
  let ?nt = "name_type m"
  have IH: "metric_groups ms = map (\<lambda>nt. (pair_key nt, ?G nt)) ?nts"
    using snoc by simp
  have inj: "inj_on pair_key (insert ?nt (set ?nts))"
  proof (rule inj_onI)
    fix a b
    assume "a \<in> insert ?nt (set ?nts)" "b \<in> insert ?nt (set ?nts)" "pair_key a = pair_key b"
    moreover have "CHR '':'' \<notin> set (snd c)" if "c \<in> insert ?nt (set ?nts)" for c
      using that snoc.prems by (auto simp: name_type_def)
    ultimately show "a = b" by (blast intro: pair_key_inj)
  qed
  show ?case
  proof (cases "?nt \<in> set ?nts")
    case True
    have look: "map_of (metric_groups ms) (group_key m) = Some (?G ?nt)"
      unfolding IH group_key_pair
      by (rule map_of_keyed) (use inj True in \<open>auto intro: inj_on_subset\<close>)
    have "metric_groups (ms @ [m])
        = AList.update (pair_key ?nt) (?G ?nt @ [m]) (map (\<lambda>nt. (pair_key nt, ?G nt)) ?nts)"
      by (simp add: metric_groups_snoc add_to_group_def look) (simp add: IH group_key_pair)
    also have "\<dots> = map (\<lambda>nt. (pair_key nt, if nt = ?nt then ?G ?nt @ [m] else ?G nt)) ?nts"
      using True by (simp add: update_keyed [OF inj])
    also have "\<dots> = map (\<lambda>nt. (pair_key nt, filter (\<lambda>m. name_type m = nt) (ms @ [m]))) ?nts"
      by (intro map_cong) auto
    finally show ?thesis using True by (simp add: first_seen_snoc)
  next
    case False
    have "pair_key ?nt \<notin> pair_key ` set ?nts"
    proof
      assume "pair_key ?nt \<in> pair_key ` set ?nts"
      then obtain a where "a \<in> set ?nts" "pair_key ?nt = pair_key a" by blast
      with inj have "?nt = a" by (auto simp: inj_on_def)
      with \<open>a \<in> set ?nts\<close> False show False by simp
    qed
    then have look: "map_of (metric_groups ms) (group_key m) = None"
      unfolding IH group_key_pair by (rule map_of_keyed_none)
    have none: "?G ?nt = []"
      using False by (auto simp: filter_empty_conv image_iff)
    have "metric_groups (ms @ [m])
        = map (\<lambda>nt. (pair_key nt, ?G nt)) ?nts @ [(pair_key ?nt, [m])]"
      by (simp add: metric_groups_snoc add_to_group_def look) (simp add: IH group_key_pair)
    also have "map (\<lambda>nt. (pair_key nt, ?G nt)) ?nts
        = map (\<lambda>nt. (pair_key nt, filter (\<lambda>m. name_type m = nt) (ms @ [m]))) ?nts"
      using False by (intro map_cong) auto
    finally show ?thesis using False none by (simp add: first_seen_snoc)
  qed
qed

lemma groups_lines_nonempty:
  "\<forall>kg\<in>set G. snd kg \<noteq> [] \<Longrightarrow>
     groups_lines L G = Inr (concat (map (\<lambda>kg. spec_group_lines L (snd kg)) G))"
proof (induction G)
  case Nil
  then show ?case by simp
next
  case (Cons kg G)
  obtain k g where kg: "kg = (k, g)" by (cases kg)
  with Cons.prems obtain x xs where g: "g = x # xs" by (cases g) auto
  from Cons show ?case
    by (simp add: kg g group_lines_def spec_group_lines_def)
qed

text \<open>
  Claim C2, corrected. For every list of samples whose types contain no colon (as the four
  valid types), the lines of \<open>format_metrics\<close> are, for each pair \<open>(name, type)\<close> once and
  in the order of first occurrence, one block: a \<open># HELP\<close> line exactly when the first
  sample of the pair has a non-empty help text, with that text, then one \<open># TYPE\<close> line,
  then the lines of all samples of the pair in input order, then an empty line. The help
  text of a later sample of the group is never used. No exception is raised.
\<close>

theorem format_metrics_groups:
  assumes "\<forall>m\<in>set metrics. CHR '':'' \<notin> set (m_type m)"
  shows "format_metrics_lines L metrics = Inr (spec_lines L metrics)
    \<and> format_metrics L metrics
        = Inr (if metrics = [] then [] else join [newline] (spec_lines L metrics))
    \<and> distinct (first_seen (map name_type metrics))
    \<and> set (first_seen (map name_type metrics)) = name_type ` set metrics"
proof -
  have ne: "\<forall>kg\<in>set (metric_groups metrics). snd kg \<noteq> []"
    unfolding metric_groups_spec [OF assms] by (auto simp: filter_empty_conv)
  have "format_metrics_lines L metrics = Inr (spec_lines L metrics)"
    unfolding format_metrics_lines_def groups_lines_nonempty [OF ne]
    by (simp add: metric_groups_spec [OF assms] spec_lines_def comp_def)
  then show ?thesis by (simp add: format_metrics_def)
qed

theorem format_metrics_groups_witness:
  "format_metrics_lines stdlib
     [\<lparr>m_name = ''cpu'', m_value = 1, m_type = ''gauge'', m_labels = [(''host'', ''a'')],
        m_help = Some ''CPU load'', m_timestamp = None\<rparr>,
      \<lparr>m_name = ''hits'', m_value = 7, m_type = ''counter'', m_labels = [],
        m_help = None, m_timestamp = Some 1672552800000\<rparr>,
      \<lparr>m_name = ''cpu'', m_value = 2, m_type = ''gauge'', m_labels = [(''host'', ''b'')],
        m_help = None, m_timestamp = None\<rparr>]
   = Inr [''# HELP cpu CPU load'', ''# TYPE cpu gauge'',
          ''cpu{host='' @ [dquote] @ ''a'' @ [dquote] @ ''} 1.0'',
          ''cpu{host='' @ [dquote] @ ''b'' @ [dquote] @ ''} 2.0'', [],
          ''# TYPE hits counter'', ''hits 7.0 1672552800000'', []]"
proof -
  let ?ms = "[\<lparr>m_name = ''cpu'', m_value = 1 :: rat, m_type = ''gauge'', m_labels = [(''host'', ''a'')],
        m_help = Some ''CPU load'', m_timestamp = None\<rparr>,
      \<lparr>m_name = ''hits'', m_value = 7, m_type = ''counter'', m_labels = [],
        m_help = None, m_timestamp = Some 1672552800000\<rparr>,
      \<lparr>m_name = ''cpu'', m_value = 2, m_type = ''gauge'', m_labels = [(''host'', ''b'')],
        m_help = None, m_timestamp = None\<rparr>]"
  have types: "\<forall>m\<in>set ?ms. CHR '':'' \<notin> set (m_type m)" by simp
  have lines: "spec_lines stdlib ?ms =
      [''# HELP cpu CPU load'', ''# TYPE cpu gauge'',
       ''cpu{host='' @ [dquote] @ ''a'' @ [dquote] @ ''} 1.0'',
       ''cpu{host='' @ [dquote] @ ''b'' @ [dquote] @ ''} 2.0'', [],
       ''# TYPE hits counter'', ''hits 7.0 1672552800000'', []]"
    by code_simp
  from format_metrics_groups [OF types, THEN conjunct1, of stdlib]
  show ?thesis unfolding lines .
qed

text \<open>
  The claim as it is written fails on a group whose first sample has no help text and
  whose second sample has one: no \<open># HELP\<close> line is written.
\<close>

theorem help_of_later_sample_unused:
  "format_metrics stdlib
     [\<lparr>m_name = ''cpu'', m_value = 1, m_type = ''gauge'', m_labels = [],
        m_help = None, m_timestamp = None\<rparr>,
      \<lparr>m_name = ''cpu'', m_value = 2, m_type = ''gauge'', m_labels = [],
        m_help = Some ''CPU load'', m_timestamp = None\<rparr>]
   = Inr (''# TYPE cpu gauge'' @ [newline] @ ''cpu 1.0'' @ [newline] @ ''cpu 2.0'' @ [newline])"
  by code_simp

subsection \<open>Label rendering\<close>

lemma escape_value_concat: "escape_value v = concat (map escape_char v)"
  by (induction v) (simp_all add: escape_value_def str_replace_def escape_char_def)

lemma escape_chars_inj:
  "concat (map escape_char v) = concat (map escape_char w) \<Longrightarrow> v = w"
proof (induction v arbitrary: w)
  case Nil
  then show ?case by (cases w) (auto simp: escape_char_def split: if_splits)
next
  case (Cons c v)
  then show ?case
    by (cases w) (auto simp: escape_char_def split: if_splits)
qed

lemma sorted_map_fst:
  "sorted (xs :: ('a::linorder \<times> 'b::linorder) list) \<Longrightarrow> sorted (map fst xs)"
  by (induction xs) (auto simp: less_eq_prod_def)

text \<open>
  Whatever the keys, every sample is in one group of the dictionary and no group is
  empty, so the line of every sample is among the lines \<open>format_metrics\<close> joins.
\<close>

lemma update_group_members:
  "map_of G k = Some g \<Longrightarrow>
     (\<Union>kg\<in>set (AList.update k (g @ [m]) G). set (snd kg)) = insert m (\<Union>kg\<in>set G. set (snd kg))"
  by (induction G) (auto split: if_splits)

lemma update_group_nonempty:
  "\<forall>kg\<in>set G. snd kg \<noteq> [] \<Longrightarrow> v \<noteq> [] \<Longrightarrow> \<forall>kg\<in>set (AList.update k v G). snd kg \<noteq> []"
  by (induction G) (auto split: if_splits)

lemma metric_groups_members:
  "(\<Union>kg\<in>set (metric_groups ms). set (snd kg)) = set ms
   \<and> (\<forall>kg\<in>set (metric_groups ms). snd kg \<noteq> [])"
proof (induction ms rule: rev_induct)
  case Nil
  then show ?case by (simp add: metric_groups_def)
next
  case (snoc m ms)
  show ?case
  proof (cases "map_of (metric_groups ms) (group_key m)")
    case None
    with snoc show ?thesis
      by (auto simp: metric_groups_snoc add_to_group_def)
  next
    case (Some g)
    from snoc have ne: "\<forall>kg\<in>set (metric_groups ms). snd kg \<noteq> []" by simp
    have "\<forall>kg\<in>set (AList.update (group_key m) (g @ [m]) (metric_groups ms)). snd kg \<noteq> []"
      by (rule update_group_nonempty [OF ne]) simp
    with snoc Some show ?thesis
      by (simp add: metric_groups_snoc add_to_group_def update_group_members)
  qed
qed

lemma sample_line_in_output:
  assumes "m \<in> set metrics"
  shows "\<exists>ls. format_metrics_lines L metrics = Inr ls
      \<and> format_metrics L metrics = Inr (join [newline] ls) \<and> sample_line L m \<in> set ls"
proof -
  note mem = metric_groups_members [of metrics]
  from mem have lines: "format_metrics_lines L metrics
      = Inr (concat (map (\<lambda>kg. spec_group_lines L (snd kg)) (metric_groups metrics)))"
    by (simp add: format_metrics_lines_def groups_lines_nonempty)
  from mem assms obtain kg where kg: "kg \<in> set (metric_groups metrics)" "m \<in> set (snd kg)"
    by blast
  then have "sample_line L m \<in> set (spec_group_lines L (snd kg))"
    by (simp add: spec_group_lines_def)
  with kg(1) have "sample_line L m
      \<in> set (concat (map (\<lambda>kg. spec_group_lines L (snd kg)) (metric_groups metrics)))"
    by auto
  moreover from assms have "metrics \<noteq> []" by auto
  ultimately show ?thesis by (simp add: format_metrics_def lines)
qed

text \<open>
  Claim C3. For every sample with a non-empty label set in the input of
  \<open>format_metrics\<close>, the text \<open>format_metrics\<close> returns is the lines joined by newlines,
  and among the lines is the line of the sample: its name, then between braces and
  separated by commas the labels in ascending order of their keys, each as \<open>key="value"\<close>
  with the value escaped in one pass (backslash to two backslashes, double quote to
  backslash and quote, newline to backslash and \<open>n\<close>), then the value and the timestamp
  when there is one. The three replacements of the source, applied in its order
  (backslash, double quote, newline), are that one pass, so nothing is escaped twice; the
  escaping is injective; and the value made of a double quote, a backslash and a newline
  is rendered as backslash-quote, backslash-backslash, backslash-n.
\<close>

theorem label_rendering:
  assumes "m \<in> set metrics" and "m_labels m \<noteq> []"
  shows "(\<exists>ls. format_metrics_lines L metrics = Inr ls
            \<and> format_metrics L metrics = Inr (join [newline] ls)
            \<and> m_name m @ ''{''
                @ join '','' (map (\<lambda>(k, v). k @ ''='' @ [dquote] @ concat (map escape_char v) @ [dquote])
                               (sort (m_labels m)))
                @ ''}'' @ '' '' @ float_str L (m_value m)
                @ (case m_timestamp m of None \<Rightarrow> [] | Some t \<Rightarrow> '' '' @ str_int t) \<in> set ls)
    \<and> sorted (map fst (sort (m_labels m)))
    \<and> mset (sort (m_labels m)) = mset (m_labels m)
    \<and> (\<forall>v. escape_value v = concat (map escape_char v))
    \<and> (\<forall>v w. escape_value v = escape_value w \<longrightarrow> v = w)
    \<and> escape_value [dquote, backslash, newline]
        = [backslash, dquote, backslash, backslash, backslash, CHR ''n'']"
proof -
  have line: "sample_line L m = m_name m @ ''{''
      @ join '','' (map (\<lambda>(k, v). k @ ''='' @ [dquote] @ concat (map escape_char v) @ [dquote])
                     (sort (m_labels m)))
      @ ''}'' @ '' '' @ float_str L (m_value m)
      @ (case m_timestamp m of None \<Rightarrow> [] | Some t \<Rightarrow> '' '' @ str_int t)"
    using assms(2)
    by (simp add: sample_line_def format_labels_def escape_value_concat split: option.splits)
  from sample_line_in_output [OF assms(1), of L]
  have first: "\<exists>ls. format_metrics_lines L metrics = Inr ls
            \<and> format_metrics L metrics = Inr (join [newline] ls)
            \<and> m_name m @ ''{''
                @ join '','' (map (\<lambda>(k, v). k @ ''='' @ [dquote] @ concat (map escape_char v) @ [dquote])
                               (sort (m_labels m)))
                @ ''}'' @ '' '' @ float_str L (m_value m)
                @ (case m_timestamp m of None \<Rightarrow> [] | Some t \<Rightarrow> '' '' @ str_int t) \<in> set ls"
    unfolding line .
  have rest: "sorted (map fst (sort (m_labels m)))
    \<and> mset (sort (m_labels m)) = mset (m_labels m)
    \<and> (\<forall>v. escape_value v = concat (map escape_char v))
    \<and> (\<forall>v w. escape_value v = escape_value w \<longrightarrow> v = w)
    \<and> escape_value [dquote, backslash, newline]
        = [backslash, dquote, backslash, backslash, backslash, CHR ''n'']"
    by (auto simp: escape_value_concat sorted_map_fst escape_char_def dest: escape_chars_inj)
  from first rest show ?thesis by (rule conjI)
qed

theorem label_rendering_witness:
  "format_metrics stdlib
     [\<lparr>m_name = ''up'', m_value = 1, m_type = ''gauge'',
        m_labels = [(''zone'', ''a''), (''host'', [dquote, backslash, newline])],
        m_help = None, m_timestamp = None\<rparr>]
   = Inr (''# TYPE up gauge'' @ [newline]
          @ ''up{host='' @ [dquote] @ [backslash, dquote, backslash, backslash, backslash, CHR ''n'']
          @ [dquote] @ '',zone='' @ [dquote] @ ''a'' @ [dquote] @ ''} 1.0'' @ [newline])
   \<and> ''up{host='' @ [dquote] @ [backslash, dquote, backslash, backslash, backslash, CHR ''n'']
        @ [dquote] @ '',zone='' @ [dquote] @ ''a'' @ [dquote] @ ''} 1.0''
      \<in> set [''# TYPE up gauge'',
              ''up{host='' @ [dquote] @ [backslash, dquote, backslash, backslash, backslash, CHR ''n'']
                @ [dquote] @ '',zone='' @ [dquote] @ ''a'' @ [dquote] @ ''} 1.0'', []]"
proof -
  let ?m = "\<lparr>m_name = ''up'', m_value = 1 :: rat, m_type = ''gauge'',
             m_labels = [(''zone'', ''a''), (''host'', [dquote, backslash, newline])],
             m_help = None, m_timestamp = None\<rparr>"
  let ?line = "''up{host='' @ [dquote] @ [backslash, dquote, backslash, backslash, backslash, CHR ''n'']
        @ [dquote] @ '',zone='' @ [dquote] @ ''a'' @ [dquote] @ ''} 1.0''"
  have mem: "?m \<in> set [?m]" by simp
  have ne: "m_labels ?m \<noteq> []" by simp
  have rendered: "m_name ?m @ ''{''
      @ join '','' (map (\<lambda>(k, v). k @ ''='' @ [dquote] @ concat (map escape_char v) @ [dquote])
                     (sort (m_labels ?m)))
      @ ''}'' @ '' '' @ float_str stdlib (m_value ?m)
      @ (case m_timestamp ?m of None \<Rightarrow> [] | Some t \<Rightarrow> '' '' @ str_int t) = ?line"
    by code_simp
  have lines: "format_metrics_lines stdlib [?m] = Inr [''# TYPE up gauge'', ?line, []]"
    by code_simp
  from label_rendering [OF mem ne, of stdlib, THEN conjunct1]
  obtain ls where ls: "format_metrics_lines stdlib [?m] = Inr ls"
    "format_metrics stdlib [?m] = Inr (join [newline] ls)" "?line \<in> set ls"
    unfolding rendered by blast
  from ls(1) lines have eq: "ls = [''# TYPE up gauge'', ?line, []]" by simp
  from ls(2,3) show ?thesis unfolding eq by simp
qed

section \<open>Properties of the query translator\<close>

lemma upper_S_not_lower_f: "upper_char c = CHR ''S'' \<Longrightarrow> lower_char c \<noteq> CHR ''f''"
  by (auto simp: upper_char_def lower_char_def less_eq_char_def char_of_def split: if_splits)

lemma select_not_from:
  assumes "startswith (upper s) ''SELECT''"
  shows "\<not> startswith (lower s) ''from''"
proof (cases s)
  case Nil
  with assms show ?thesis by (simp add: startswith_def upper_def)
next
  case (Cons c cs)
  with assms have "upper_char c = CHR ''S''"
    by (simp add: startswith_def upper_def)
  then have "lower_char c \<noteq> CHR ''f''" by (rule upper_S_not_lower_f)
  with Cons show ?thesis by (simp add: startswith_def lower_def)
qed

text \<open>
  Claim C10. \<open>detect_query_type\<close> tests for Flux first: a query that contains \<open>|>\<close> is
  \<open>flux\<close>, whatever it starts with, and the answer is \<open>influxql\<close> exactly for the queries
  whose stripped, upper-cased text starts with \<open>SELECT\<close> and that contain no \<open>|>\<close>.
\<close>

theorem detect_query_type_order:
  "(contains ''|>'' query \<longrightarrow> detect_query_type query = ''flux'')
   \<and> (detect_query_type query = ''influxql''
        \<longleftrightarrow> startswith (upper (strip query)) ''SELECT'' \<and> \<not> contains ''|>'' query)"
  using select_not_from [of "strip query"] by (auto simp: detect_query_type_def)

theorem detect_query_type_order_witness:
  "contains ''|>'' ''  select mean(x) from cpu |> yield()''
   \<and> startswith (upper (strip ''  select mean(x) from cpu |> yield()'')) ''SELECT''
   \<and> detect_query_type ''  select mean(x) from cpu |> yield()'' = ''flux''"
proof -
  have pipe: "contains ''|>'' ''  select mean(x) from cpu |> yield()''"
    by code_simp
  have sel: "startswith (upper (strip ''  select mean(x) from cpu |> yield()'')) ''SELECT''"
    by code_simp
  from detect_query_type_order [of "''  select mean(x) from cpu |> yield()''", THEN conjunct1] pipe
  have "detect_query_type ''  select mean(x) from cpu |> yield()'' = ''flux''"
    by blast
  with pipe sel show ?thesis by blast
qed

subsection \<open>No exception from the translator\<close>

text \<open>A successful match sets every group that takes part in every match of the pattern.\<close>

lemma match_must:
  "match k s c = Some (c', s') \<Longrightarrow> (\<Union>f\<in>set k. frame_must f) \<union> fst ` set c \<subseteq> fst ` set c'"
proof (induction k s c rule: match.induct)
  case (7 a b k s c)
  then show ?case by (auto split: option.splits)
next
  case (8 a k s c)
  then show ?case by (auto split: option.splits)
next
  case (14 greedy P k x xs c)
  then show ?case by (auto split: option.splits if_splits)
qed (auto simp: dom_update split: if_splits)

lemma search_must: "search r s = Some (c, rest) \<Longrightarrow> must r \<subseteq> fst ` set c"
proof (induction s)
  case Nil
  then show ?case using match_must [of "[R r]" "[]" "[]" c rest] by simp
next
  case (Cons x xs)
  then show ?case
    using match_must [of "[R r]" "x # xs" "[]" c rest] by (auto split: option.splits)
qed

lemma search_group:
  "search r s = Some (c, rest) \<Longrightarrow> g \<in> must r \<Longrightarrow> \<exists>t. group c g = Some t"
  using search_must [of r s c rest]
  by (cases "map_of c g") (auto simp: group_def map_of_eq_None_iff)

lemma must_lit [simp]: "must (lit s) = {}"
  by (induction s) (simp_all add: lit_def)

lemma must_lit_i [simp]: "must (lit_i s) = {}"
  by (induction s) (simp_all add: lit_i_def)

lemma must_seqs [simp]: "must (seqs rs) = (\<Union>r\<in>set rs. must r)"
  by (induction rs) (simp_all add: seqs_def)

lemma must_ws [simp]: "must ws = {}" "must ws1 = {}"
  by (simp_all add: ws_def ws1_def)

lemma range_must: "1 \<in> must range_pattern"
  by (simp add: range_pattern_def)

lemma select_must: "1 \<in> must select_pattern" "2 \<in> must select_pattern"
  by (simp_all add: select_pattern_def)

lemma where_must: "1 \<in> must where_pattern"
  by (simp add: where_pattern_def)

lemma time_must: "2 \<in> must time_pattern"
  by (simp add: time_pattern_def)

lemma function_must: "1 \<in> must function_pattern" "2 \<in> must function_pattern"
  by (simp_all add: function_pattern_def)

lemma flux_time_range_returns: "\<exists>t. flux_time_range q = Inr t"
proof (cases "search range_pattern q")
  case None
  then show ?thesis by (simp add: flux_time_range_def)
next
  case (Some res)
  obtain m rest where res: "res = (m, rest)" by (cases res)
  from search_group [OF Some [unfolded res] range_must]
  obtain t where "group m 1 = Some t" ..
  with Some res show ?thesis by (simp add: flux_time_range_def attr_def)
qed

lemma convert_flux_returns: "\<exists>p. convert_flux_to_promql q = Inr p"
  using flux_time_range_returns [of q] by (auto simp: convert_flux_to_promql_def)

lemma influxql_selection_returns: "\<exists>p. influxql_selection sc me = Inr p"
proof (cases "search function_pattern sc")
  case None
  then show ?thesis by (simp add: influxql_selection_def)
next
  case (Some res)
  obtain m rest where res: "res = (m, rest)" by (cases res)
  from search_group [OF Some [unfolded res] function_must(1)]
  obtain t1 where t1: "group m 1 = Some t1" ..
  from search_group [OF Some [unfolded res] function_must(2)]
  obtain t2 where t2: "group m 2 = Some t2" ..
  from Some res t1 t2 show ?thesis by (simp add: influxql_selection_def attr_def)
qed

lemma influxql_time_range_returns: "\<exists>t. influxql_time_range wc = Inr t"
proof (cases "search time_pattern wc")
  case None
  then show ?thesis by (simp add: influxql_time_range_def)
next
  case (Some res)
  obtain m rest where res: "res = (m, rest)" by (cases res)
  from search_group [OF Some [unfolded res] time_must]
  obtain t where "group m 2 = Some t" ..
  with Some res show ?thesis
    by (auto simp: influxql_time_range_def split: option.splits)
qed

lemma influxql_where_returns: "\<exists>w. influxql_where q = Inr w"
proof (cases "search where_pattern q")
  case None
  then show ?thesis by (simp add: influxql_where_def)
next
  case (Some res)
  obtain m rest where res: "res = (m, rest)" by (cases res)
  from search_group [OF Some [unfolded res] where_must]
  obtain t where t: "group m 1 = Some t" ..
  from influxql_time_range_returns [of "strip t"]
  obtain tr where "influxql_time_range (strip t) = Inr tr" ..
  with Some res t show ?thesis by (simp add: influxql_where_def attr_def)
qed

lemma convert_influxql_returns: "\<exists>p. convert_influxql_to_promql q = Inr p"
proof (cases "search select_pattern q")
  case None
  then show ?thesis by (simp add: convert_influxql_to_promql_def)
next
  case (Some res)
  obtain m rest where res: "res = (m, rest)" by (cases res)
  from search_group [OF Some [unfolded res] select_must(1)]
  obtain t1 where t1: "group m 1 = Some t1" ..
  from search_group [OF Some [unfolded res] select_must(2)]
  obtain t2 where t2: "group m 2 = Some t2" ..
  from influxql_selection_returns [of "strip t1" "strip t2"]
  obtain mn pf where sel: "influxql_selection (strip t1) (strip t2) = Inr (mn, pf)" by auto
  from influxql_where_returns [of q]
  obtain fs tr where wh: "influxql_where q = Inr (fs, tr)" by auto
  from Some res t1 t2 sel wh show ?thesis
    by (simp add: convert_influxql_to_promql_def attr_def)
qed

text \<open>
  Claim C8. \<open>influx_to_promql\<close> raises no exception: for every query text and every
  forced type (or none) it returns a string. When the type in force is neither \<open>flux\<close>
  nor \<open>influxql\<close> the string is the error message that asks for the type; a forced
  \<open>flux\<close> returns what \<open>convert_flux_to_promql\<close> returns and a forced \<open>influxql\<close> what
  \<open>convert_influxql_to_promql\<close> returns, on any query, whatever language it is in.
\<close>

theorem influx_to_promql_never_raises:
  "(\<exists>p. influx_to_promql query force_type = Inr p)
   \<and> (query_type_of query force_type \<noteq> ''flux'' \<and> query_type_of query force_type \<noteq> ''influxql''
        \<longrightarrow> influx_to_promql query force_type
              = Inr ''Error: Could not determine query type. Please specify using --type'')
   \<and> (\<exists>p. influx_to_promql query (Some ''flux'') = Inr p \<and> convert_flux_to_promql query = Inr p)
   \<and> (\<exists>p. influx_to_promql query (Some ''influxql'') = Inr p
            \<and> convert_influxql_to_promql query = Inr p)"
  using convert_flux_returns [of query] convert_influxql_returns [of query]
  by (auto simp: influx_to_promql_def query_type_of_def Let_def)

theorem influx_to_promql_never_raises_witness:
  "query_type_of ''this is not a valid query'' None \<noteq> ''flux''
   \<and> query_type_of ''this is not a valid query'' None \<noteq> ''influxql''
   \<and> influx_to_promql ''this is not a valid query'' None
       = Inr ''Error: Could not determine query type. Please specify using --type''"
proof -
  have unknown: "query_type_of ''this is not a valid query'' None \<noteq> ''flux''
      \<and> query_type_of ''this is not a valid query'' None \<noteq> ''influxql''"
    by code_simp
  from influx_to_promql_never_raises [of "''this is not a valid query''" None,
      THEN conjunct2, THEN conjunct1] unknown
  show ?thesis by blast
qed

text \<open>
  The test's Flux query translates as the test expects, and the same query forced to
  \<open>influxql\<close> gives the message of a failed parse, not an exception.
\<close>

lemma test_flux_query_translation:
  "influx_to_promql test_flux_query None = Inr ''avg(cpu_usage_user[-1h])''
   \<and> influx_to_promql test_flux_query (Some ''influxql'')
       = Inr ''Error: Could not parse InfluxQL SELECT statement''"
  by code_simp

end
